theory Spec2Isabelle
  imports Main
begin

section \<open>Python values and the operations the device classes apply to them\<close>

text \<open>
  The attribute dictionaries of the device classes hold dynamically typed values:
  \<^verbatim>\<open>None\<close>, booleans, integers and strings. Floating point values (the A1
  \<^verbatim>\<open>current_temperature\<close>) only ever pass through the identity branch of the decoders
  and are not represented. Strings are ASCII.
\<close>

datatype pyval = PNone | PBool bool | PInt int | PStr string

datatype error = TypeError | ValueError | IndexError

text \<open>\<^verbatim>\<open>bool\<close> is a subtype of \<^verbatim>\<open>int\<close>: both take part in arithmetic and comparison.\<close>

fun py_num :: "pyval \<Rightarrow> int option" where
  "py_num (PBool b) = Some (if b then 1 else 0)"
| "py_num (PInt i) = Some i"
| "py_num PNone = None"
| "py_num (PStr s) = None"

text \<open>\<^verbatim>\<open>a == b\<close>\<close>

fun py_eq :: "pyval \<Rightarrow> pyval \<Rightarrow> bool" where
  "py_eq PNone PNone = True"
| "py_eq (PStr s) (PStr t) = (s = t)"
| "py_eq PNone (PStr t) = False"
| "py_eq (PStr s) PNone = False"
| "py_eq a b = (case (py_num a, py_num b) of (Some i, Some j) \<Rightarrow> i = j | _ \<Rightarrow> False)"

text \<open>\<^verbatim>\<open>bool(v)\<close>\<close>

fun py_bool :: "pyval \<Rightarrow> bool" where
  "py_bool PNone = False"
| "py_bool (PBool b) = b"
| "py_bool (PInt i) = (i \<noteq> 0)"
| "py_bool (PStr s) = (s \<noteq> [])"

text \<open>\<^verbatim>\<open>v >= n\<close> against an integer \<open>n\<close>: a \<^verbatim>\<open>TypeError\<close> for \<^verbatim>\<open>None\<close> and for
  strings. (\<^verbatim>\<open>v <= n\<close> and \<^verbatim>\<open>v < n\<close> are written out where they occur.)\<close>

definition py_ge :: "pyval \<Rightarrow> int \<Rightarrow> error + bool" where
  "py_ge v n = (case py_num v of None \<Rightarrow> Inl TypeError | Some i \<Rightarrow> Inr (n \<le> i))"

text \<open>\<^verbatim>\<open>xs[i]\<close> on a list: a negative index counts from the end, an index outside
  \<^verbatim>\<open>-len(xs) .. len(xs)-1\<close> raises \<^verbatim>\<open>IndexError\<close>.\<close>

definition py_getitem :: "'a list \<Rightarrow> int \<Rightarrow> error + 'a" where
  "py_getitem xs i =
     (if 0 \<le> i \<and> i < int (length xs) then Inr (xs ! nat i)
      else if i < 0 \<and> - int (length xs) \<le> i then Inr (xs ! nat (int (length xs) + i))
      else Inl IndexError)"

text \<open>\<^verbatim>\<open>v in xs\<close> and \<^verbatim>\<open>xs.index(v)\<close> for a list of strings \<open>xs\<close>.\<close>

definition py_in :: "pyval \<Rightarrow> string list \<Rightarrow> bool" where
  "py_in v xs = (\<exists>x \<in> set xs. py_eq v (PStr x))"

fun py_index :: "string list \<Rightarrow> pyval \<Rightarrow> error + nat" where
  "py_index [] v = Inl ValueError"
| "py_index (x # xs) v =
     (if py_eq v (PStr x) then Inr 0
      else (case py_index xs v of Inl e \<Rightarrow> Inl e | Inr k \<Rightarrow> Inr (Suc k)))"

text \<open>\<^verbatim>\<open>v in d\<close> and \<^verbatim>\<open>d.get(v)\<close> for a dictionary \<open>d\<close> with integer keys, kept as an
  association list in the order of the literal.\<close>

fun dict_get :: "(int \<times> string) list \<Rightarrow> pyval \<Rightarrow> string option" where
  "dict_get [] v = None"
| "dict_get ((k, l) # d) v = (if py_eq v (PInt k) then Some l else dict_get d v)"

definition dict_contains :: "(int \<times> string) list \<Rightarrow> pyval \<Rightarrow> bool" where
  "dict_contains d v = (dict_get d v \<noteq> None)"

definition dict_keys :: "(int \<times> string) list \<Rightarrow> int list" where
  "dict_keys d = map fst d"

definition dict_values :: "(int \<times> string) list \<Rightarrow> string list" where
  "dict_values d = map snd d"

subsection \<open>\<^verbatim>\<open>str(v)\<close> and \<^verbatim>\<open>int(v)\<close>\<close>

definition digit_char :: "nat \<Rightarrow> char" where
  "digit_char d = ''0123456789'' ! d"

text \<open>The value of a decimal digit, by its code point.\<close>

definition digit_of :: "char \<Rightarrow> nat option" where
  "digit_of c =
     (let k = of_char c :: nat in if 48 \<le> k \<and> k \<le> 57 then Some (k - 48) else None)"

fun str_nat :: "nat \<Rightarrow> string" where
  "str_nat n = (if n < 10 then [digit_char n] else str_nat (n div 10) @ [digit_char (n mod 10)])"

declare str_nat.simps [simp del]

fun py_str :: "pyval \<Rightarrow> string" where
  "py_str PNone = ''None''"
| "py_str (PBool b) = (if b then ''True'' else ''False'')"
| "py_str (PInt i) = (if i < 0 then CHR ''-'' # str_nat (nat (- i)) else str_nat (nat i))"
| "py_str (PStr s) = s"

text \<open>
  \<^verbatim>\<open>int(s)\<close> on a string: surrounding whitespace is dropped, one sign is allowed, and the
  rest is a non-empty run of digits in which single underscores may separate digits.
  Anything else raises \<^verbatim>\<open>ValueError\<close>.
\<close>

definition is_space :: "char \<Rightarrow> bool" where
  "is_space c = (c \<in> set [CHR '' '', CHR 0x09, CHR 0x0A, CHR 0x0B, CHR 0x0C, CHR 0x0D,
                          CHR 0x1C, CHR 0x1D, CHR 0x1E, CHR 0x1F])"

definition strip :: "string \<Rightarrow> string" where
  "strip s = rev (dropWhile is_space (rev (dropWhile is_space s)))"

fun digits_acc :: "nat \<Rightarrow> string \<Rightarrow> nat option" where
  "digits_acc acc [] = Some acc"
| "digits_acc acc [c] = (case digit_of c of None \<Rightarrow> None | Some d \<Rightarrow> Some (10 * acc + d))"
| "digits_acc acc (c # c' # cs) =
     (case digit_of c of
        Some d \<Rightarrow> digits_acc (10 * acc + d) (c' # cs)
      | None \<Rightarrow>
          (if c = CHR ''_'' then
             (case digit_of c' of None \<Rightarrow> None | Some d \<Rightarrow> digits_acc (10 * acc + d) cs)
           else None))"

definition py_digits :: "string \<Rightarrow> nat option" where
  "py_digits s =
     (case s of [] \<Rightarrow> None
      | c # cs \<Rightarrow> (case digit_of c of None \<Rightarrow> None | Some d \<Rightarrow> digits_acc d cs))"

definition int_of_str :: "string \<Rightarrow> error + int" where
  "int_of_str s =
     (case strip s of
        [] \<Rightarrow> Inl ValueError
      | c # cs \<Rightarrow>
          (if c = CHR ''-'' then
             (case py_digits cs of None \<Rightarrow> Inl ValueError | Some n \<Rightarrow> Inr (- int n))
           else if c = CHR ''+'' then
             (case py_digits cs of None \<Rightarrow> Inl ValueError | Some n \<Rightarrow> Inr (int n))
           else
             (case py_digits (c # cs) of None \<Rightarrow> Inl ValueError | Some n \<Rightarrow> Inr (int n))))"

fun py_int :: "pyval \<Rightarrow> error + int" where
  "py_int PNone = Inl TypeError"
| "py_int (PBool b) = Inr (if b then 1 else 0)"
| "py_int (PInt i) = Inr i"
| "py_int (PStr s) = int_of_str s"

section \<open>Devices, messages and host callbacks\<close>

text \<open>
  A device keeps its attribute dictionary and the protocol version it puts into the
  messages it builds. The key set of the dictionary is fixed by the constructor, so the
  dictionary is a total function on the attribute enumeration; iteration follows the
  order of the constructor's literal.
\<close>

record 'a device =
  attributes :: "'a \<Rightarrow> pyval"
  message_protocol_version :: int

text \<open>
  The message classes are built by the codec, outside these files. A response is seen
  through \<^verbatim>\<open>hasattr\<close>/\<^verbatim>\<open>getattr\<close> on attribute names and its \<^verbatim>\<open>protocol_version\<close>;
  a set message is a protocol version and the fields assigned to it.
\<close>

record response =
  protocol_version :: int
  msg_fields :: "string \<rightharpoonup> pyval"

record message_set =
  set_protocol_version :: int
  set_fields :: "string \<rightharpoonup> pyval"

datatype message_query = MessageQuery int

type_synonym report = "string \<rightharpoonup> pyval"

text \<open>The calls into the base class: \<^verbatim>\<open>update_all\<close> publishes a dictionary to the
  application, \<^verbatim>\<open>build_send\<close> hands a message to the transport.\<close>

datatype host_call = UpdateAll "(string \<times> pyval) list" | BuildSend message_set

text \<open>
  The loop shared by the three \<^verbatim>\<open>process_message\<close> methods:
  \<^verbatim>\<open>for status in self._attributes: if hasattr(message, str(status)): ...\<close>.
  An exception raised by the body ends the pass; the result is then the exception alone
  (the dictionary as mutated up to that point is not part of it).
\<close>

type_synonym 'a pass_state = "('a \<Rightarrow> pyval) \<times> report"

fun for_each_present ::
  "('a \<Rightarrow> string) \<Rightarrow> ('a \<Rightarrow> pyval \<Rightarrow> 'a pass_state \<Rightarrow> error + 'a pass_state) \<Rightarrow>
   'a list \<Rightarrow> response \<Rightarrow> 'a pass_state \<Rightarrow> error + 'a pass_state" where
  "for_each_present name body [] message sr = Inr sr"
| "for_each_present name body (status # rest) message sr =
     (case msg_fields message (name status) of
        None \<Rightarrow> for_each_present name body rest message sr
      | Some v \<Rightarrow>
          (case body status v sr of
             Inl e \<Rightarrow> Inl e
           | Inr sr' \<Rightarrow> for_each_present name body rest message sr'))"

section \<open>The A1 device (dehumidifier)\<close>

datatype a1_attr =
    A1_power | A1_prompt_tone | A1_child_lock | A1_mode | A1_fan_speed | A1_swing
  | A1_target_humidity | A1_anion | A1_tank | A1_water_level_set | A1_tank_full
  | A1_current_humidity | A1_current_temperature

text \<open>\<^verbatim>\<open>str(status)\<close> of a \<^verbatim>\<open>DeviceAttributes\<close> member.\<close>

fun a1_name :: "a1_attr \<Rightarrow> string" where
  "a1_name A1_power = ''power''"
| "a1_name A1_prompt_tone = ''prompt_tone''"
| "a1_name A1_child_lock = ''child_lock''"
| "a1_name A1_mode = ''mode''"
| "a1_name A1_fan_speed = ''fan_speed''"
| "a1_name A1_swing = ''swing''"
| "a1_name A1_target_humidity = ''target_humidity''"
| "a1_name A1_anion = ''anion''"
| "a1_name A1_tank = ''tank''"
| "a1_name A1_water_level_set = ''water_level_set''"
| "a1_name A1_tank_full = ''tank_full''"
| "a1_name A1_current_humidity = ''current_humidity''"
| "a1_name A1_current_temperature = ''current_temperature''"

definition a1_modes :: "string list" where
  "a1_modes = [''Manual'', ''Continuous'', ''Auto'', ''Clothes-Dry'', ''Shoes-Dry'']"

definition a1_speeds :: "(int \<times> string) list" where
  "a1_speeds = [(1, ''Lowest''), (40, ''Low''), (60, ''Medium''), (80, ''High''),
                (102, ''Auto''), (127, ''Off'')]"

definition a1_water_level_sets :: "string list" where
  "a1_water_level_sets = [''25'', ''50'', ''75'', ''100'']"

text \<open>The attribute dictionary of \<^verbatim>\<open>__init__\<close>, and the order of its keys.\<close>

fun a1_default_attributes :: "a1_attr \<Rightarrow> pyval" where
  "a1_default_attributes A1_power = PBool False"
| "a1_default_attributes A1_prompt_tone = PBool True"
| "a1_default_attributes A1_child_lock = PBool False"
| "a1_default_attributes A1_mode = PNone"
| "a1_default_attributes A1_fan_speed = PStr ''Medium''"
| "a1_default_attributes A1_swing = PBool False"
| "a1_default_attributes A1_target_humidity = PInt 35"
| "a1_default_attributes A1_anion = PBool False"
| "a1_default_attributes A1_tank = PInt 0"
| "a1_default_attributes A1_water_level_set = PInt 50"
| "a1_default_attributes A1_tank_full = PNone"
| "a1_default_attributes A1_current_humidity = PNone"
| "a1_default_attributes A1_current_temperature = PNone"

definition a1_attribute_order :: "a1_attr list" where
  "a1_attribute_order =
     [A1_power, A1_prompt_tone, A1_child_lock, A1_mode, A1_fan_speed, A1_swing,
      A1_target_humidity, A1_anion, A1_tank, A1_water_level_set, A1_tank_full,
      A1_current_humidity, A1_current_temperature]"

text \<open>The properties \<^verbatim>\<open>modes\<close>, \<^verbatim>\<open>fan_speeds\<close> and \<^verbatim>\<open>water_level_sets\<close>.\<close>

definition a1_fan_speeds :: "string list" where
  "a1_fan_speeds = dict_values a1_speeds"

text \<open>The device as \<^verbatim>\<open>__init__\<close> leaves it; the protocol version is set by the base class
  and is a parameter here.\<close>

definition a1_new :: "int \<Rightarrow> a1_attr device" where
  "a1_new version = \<lparr>attributes = a1_default_attributes, message_protocol_version = version\<rparr>"

definition a1_build_query :: "a1_attr device \<Rightarrow> message_query list" where
  "a1_build_query dev = [MessageQuery (message_protocol_version dev)]"

subsection \<open>\<^verbatim>\<open>process_message\<close>\<close>

text \<open>The value stored for one attribute of the message (the \<^verbatim>\<open>if\<close>/\<^verbatim>\<open>elif\<close> chain).\<close>

definition a1_decode :: "a1_attr \<Rightarrow> pyval \<Rightarrow> error + pyval" where
  "a1_decode status v =
     (if status = A1_mode then
        (case py_num v of
           None \<Rightarrow> Inl TypeError
         | Some i \<Rightarrow>
             (if i \<le> int (length a1_modes) then
                (case py_getitem a1_modes (i - 1) of Inl e \<Rightarrow> Inl e | Inr l \<Rightarrow> Inr (PStr l))
              else Inr PNone))
      else if status = A1_fan_speed then
        (if dict_contains a1_speeds v
         then Inr (case dict_get a1_speeds v of None \<Rightarrow> PNone | Some l \<Rightarrow> PStr l)
         else Inr PNone)
      else if status = A1_water_level_set then Inr (PStr (py_str v))
      else Inr v)"

text \<open>\<^verbatim>\<open>tank >= water_level if bool(tank) else False\<close>\<close>

definition tank_full_calculated :: "pyval \<Rightarrow> int \<Rightarrow> error + bool" where
  "tank_full_calculated tank water_level =
     (if py_bool tank then py_ge tank water_level else Inr False)"

text \<open>
  The body of the loop for one attribute the message exposes: store the decoded value,
  recompute \<^verbatim>\<open>tank_full\<close>, enter the attribute into \<^verbatim>\<open>new_status\<close>.
\<close>

definition a1_update ::
  "a1_attr \<Rightarrow> pyval \<Rightarrow> a1_attr pass_state \<Rightarrow> error + a1_attr pass_state" where
  "a1_update status v sr =
     (case a1_decode status v of
        Inl e \<Rightarrow> Inl e
      | Inr d \<Rightarrow>
          (let attrs1 = (fst sr)(status := d);
               tank_full = attrs1 A1_tank_full;
               tank = attrs1 A1_tank
           in case py_int (attrs1 A1_water_level_set) of
                Inl e \<Rightarrow> Inl e
              | Inr water_level \<Rightarrow>
                  (case tank_full_calculated tank water_level of
                     Inl e \<Rightarrow> Inl e
                   | Inr calc \<Rightarrow>
                       (if tank_full = PNone \<or> \<not> py_eq tank_full (PBool calc) then
                          Inr (attrs1(A1_tank_full := PBool calc),
                               ((snd sr)(''tank_full'' \<mapsto> PBool calc))
                                 (a1_name status \<mapsto> (attrs1(A1_tank_full := PBool calc)) status))
                        else
                          Inr (attrs1, (snd sr)(a1_name status \<mapsto> attrs1 status))))))"

text \<open>\<^verbatim>\<open>process_message\<close> assigns the protocol version of the message, then runs the
  loop from an empty \<^verbatim>\<open>new_status\<close>.\<close>

definition a1_process_message :: "a1_attr device \<Rightarrow> response \<Rightarrow> error + (a1_attr device \<times> report)" where
  "a1_process_message dev message =
     (case for_each_present a1_name a1_update a1_attribute_order message
             (attributes dev, Map.empty) of
        Inl e \<Rightarrow> Inl e
      | Inr (attrs, new_status) \<Rightarrow>
          Inr (\<lparr>attributes = attrs, message_protocol_version = protocol_version message\<rparr>,
               new_status))"

subsection \<open>\<^verbatim>\<open>make_message_set\<close> and \<^verbatim>\<open>set_attribute\<close>\<close>

text \<open>\<^verbatim>\<open>list(_speeds.keys())[list(_speeds.values()).index(v)]\<close>\<close>

definition a1_speed_code :: "pyval \<Rightarrow> error + int" where
  "a1_speed_code v =
     (case py_index (dict_values a1_speeds) v of
        Inl e \<Rightarrow> Inl e
      | Inr k \<Rightarrow> py_getitem (dict_keys a1_speeds) (int k))"

definition a1_make_message_set :: "a1_attr device \<Rightarrow> error + message_set" where
  "a1_make_message_set dev =
     (let a = attributes dev;
          mode = (if py_in (a A1_mode) a1_modes
                  then (case py_index a1_modes (a A1_mode) of Inl e \<Rightarrow> Inl e | Inr k \<Rightarrow> Inr (int k + 1))
                  else Inr 1)
      in case mode of
           Inl e \<Rightarrow> Inl e
         | Inr mode_code \<Rightarrow>
             (case (if a A1_fan_speed = PNone then Inr 40 else a1_speed_code (a A1_fan_speed)) of
                Inl e \<Rightarrow> Inl e
              | Inr fan_code \<Rightarrow>
                  (case py_int (a A1_water_level_set) of
                     Inl e \<Rightarrow> Inl e
                   | Inr water_level \<Rightarrow>
                       Inr \<lparr>set_protocol_version = message_protocol_version dev,
                            set_fields =
                              [''power'' \<mapsto> a A1_power,
                               ''prompt_tone'' \<mapsto> a A1_prompt_tone,
                               ''child_lock'' \<mapsto> a A1_child_lock,
                               ''mode'' \<mapsto> PInt mode_code,
                               ''fan_speed'' \<mapsto> PInt fan_code,
                               ''target_humidity'' \<mapsto> a A1_target_humidity,
                               ''swing'' \<mapsto> a A1_swing,
                               ''anion'' \<mapsto> a A1_anion,
                               ''water_level_set'' \<mapsto> PInt water_level]\<rparr>)))"

text \<open>
  \<^verbatim>\<open>set_attribute\<close> returns the device and the calls it made into the base class.
  \<^verbatim>\<open>setattr(message, name, v)\<close> is an update of the message's fields.
\<close>

definition setattr :: "message_set \<Rightarrow> string \<Rightarrow> pyval \<Rightarrow> message_set" where
  "setattr message name v = message\<lparr>set_fields := (set_fields message)(name \<mapsto> v)\<rparr>"

definition a1_set_attribute ::
  "a1_attr device \<Rightarrow> string \<Rightarrow> pyval \<Rightarrow> error + (a1_attr device \<times> host_call list)" where
  "a1_set_attribute dev attr v =
     (if attr = ''prompt_tone'' then
        Inr (dev\<lparr>attributes := (attributes dev)(A1_prompt_tone := v)\<rparr>,
             [UpdateAll [(''prompt_tone'', v)]])
      else
        (case a1_make_message_set dev of
           Inl e \<Rightarrow> Inl e
         | Inr message \<Rightarrow>
             (if attr = ''mode'' then
                (if py_in v a1_modes then
                   (case py_index a1_modes (PStr (py_str v)) of
                      Inl e \<Rightarrow> Inl e
                    | Inr k \<Rightarrow> Inr (dev, [BuildSend (setattr message ''mode'' (PInt (int k + 1)))]))
                 else Inr (dev, [BuildSend message]))
              else if attr = ''fan_speed'' then
                (if py_in v (dict_values a1_speeds) then
                   (case a1_speed_code (PStr (py_str v)) of
                      Inl e \<Rightarrow> Inl e
                    | Inr c \<Rightarrow> Inr (dev, [BuildSend (setattr message ''fan_speed'' (PInt c))]))
                 else Inr (dev, [BuildSend message]))
              else if attr = ''water_level_set'' then
                (if py_in v a1_water_level_sets then
                   (case py_int v of
                      Inl e \<Rightarrow> Inl e
                    | Inr n \<Rightarrow> Inr (dev, [BuildSend (setattr message ''water_level_set'' (PInt n))]))
                 else Inr (dev, [BuildSend message]))
              else Inr (dev, [BuildSend (setattr message attr v)]))))"

section \<open>The B1 device (oven)\<close>

datatype b1_attr =
    B1_door | B1_status | B1_time_remaining | B1_current_temperature | B1_tank_ejected
  | B1_water_change_reminder | B1_water_shortage

fun b1_name :: "b1_attr \<Rightarrow> string" where
  "b1_name B1_door = ''door''"
| "b1_name B1_status = ''status''"
| "b1_name B1_time_remaining = ''time_remaining''"
| "b1_name B1_current_temperature = ''current_temperature''"
| "b1_name B1_tank_ejected = ''tank_ejected''"
| "b1_name B1_water_change_reminder = ''water_change_reminder''"
| "b1_name B1_water_shortage = ''water_shortage''"

definition b1_status :: "(int \<times> string) list" where
  "b1_status = [(0x01, ''Standby''), (0x02, ''Idle''), (0x03, ''Working''), (0x04, ''Finished''),
                (0x05, ''Delay''), (0x06, ''Paused'')]"

fun b1_default_attributes :: "b1_attr \<Rightarrow> pyval" where
  "b1_default_attributes B1_door = PBool False"
| "b1_default_attributes B1_status = PNone"
| "b1_default_attributes B1_time_remaining = PNone"
| "b1_default_attributes B1_current_temperature = PNone"
| "b1_default_attributes B1_tank_ejected = PBool False"
| "b1_default_attributes B1_water_change_reminder = PBool False"
| "b1_default_attributes B1_water_shortage = PBool False"

definition b1_attribute_order :: "b1_attr list" where
  "b1_attribute_order =
     [B1_door, B1_status, B1_time_remaining, B1_current_temperature, B1_tank_ejected,
      B1_water_change_reminder, B1_water_shortage]"

definition b1_new :: "int \<Rightarrow> b1_attr device" where
  "b1_new version = \<lparr>attributes = b1_default_attributes, message_protocol_version = version\<rparr>"

definition b1_build_query :: "b1_attr device \<Rightarrow> message_query list" where
  "b1_build_query dev = [MessageQuery (message_protocol_version dev)]"

definition b1_decode :: "b1_attr \<Rightarrow> pyval \<Rightarrow> pyval" where
  "b1_decode status v =
     (if status = B1_status then
        (if dict_contains b1_status v
         then (case dict_get b1_status v of None \<Rightarrow> PNone | Some l \<Rightarrow> PStr l)
         else PNone)
      else v)"

definition b1_update ::
  "b1_attr \<Rightarrow> pyval \<Rightarrow> b1_attr pass_state \<Rightarrow> error + b1_attr pass_state" where
  "b1_update status v sr =
     (let attrs1 = (fst sr)(status := b1_decode status v)
      in Inr (attrs1, (snd sr)(b1_name status \<mapsto> attrs1 status)))"

text \<open>\<^verbatim>\<open>process_message\<close> of the B1 device does not assign
  \<^verbatim>\<open>_message_protocol_version\<close>.\<close>

definition b1_process_message :: "b1_attr device \<Rightarrow> response \<Rightarrow> error + (b1_attr device \<times> report)" where
  "b1_process_message dev message =
     (case for_each_present b1_name b1_update b1_attribute_order message
             (attributes dev, Map.empty) of
        Inl e \<Rightarrow> Inl e
      | Inr (attrs, new_status) \<Rightarrow> Inr (dev\<lparr>attributes := attrs\<rparr>, new_status))"

text \<open>\<^verbatim>\<open>set_attribute\<close> has an empty body.\<close>

definition b1_set_attribute :: "b1_attr device \<Rightarrow> string \<Rightarrow> pyval \<Rightarrow> b1_attr device \<times> host_call list" where
  "b1_set_attribute dev attr v = (dev, [])"

section \<open>The EC device (pressure cooker)\<close>

datatype ec_attr =
    EC_cooking | EC_mode | EC_time_remaining | EC_keep_warm_time | EC_top_temperature
  | EC_bottom_temperature | EC_progress | EC_with_pressure

fun ec_name :: "ec_attr \<Rightarrow> string" where
  "ec_name EC_cooking = ''cooking''"
| "ec_name EC_mode = ''mode''"
| "ec_name EC_time_remaining = ''time_remaining''"
| "ec_name EC_keep_warm_time = ''keep_warm_time''"
| "ec_name EC_top_temperature = ''top_temperature''"
| "ec_name EC_bottom_temperature = ''bottom_temperature''"
| "ec_name EC_progress = ''progress''"
| "ec_name EC_with_pressure = ''with_pressure''"

definition ec_mode_list :: "string list" where
  "ec_mode_list =
     [
      ''smart'', ''reserve'', ''cook_rice'', ''fast_cook_rice'', ''standard_cook_rice'',
      ''gruel'', ''cook_congee'', ''stew_soup'', ''stewing'', ''heat_rice'', ''make_cake'',
      ''yoghourt'', ''soup_rice'', ''coarse_rice'', ''five_ceeals_rice'',
      ''eight_treasures_rice'', ''crispy_rice'', ''shelled_rice'',
      ''eight_treasures_congee'', ''infant_congee'', ''older_rice'', ''rice_soup'',
      ''rice_paste'', ''egg_custard'', ''warm_milk'', ''hot_spring_egg'',
      ''millet_congee'', ''firewood_rice'', ''few_rice'', ''red_potato'', ''corn'',
      ''quick_freeze_bun'', ''steam_ribs'', ''steam_egg'', ''coarse_congee'',
      ''steep_rice'', ''appetizing_congee'', ''corn_congee'', ''sprout_rice'',
      ''luscious_rice'', ''luscious_boiled'', ''fast_rice'', ''fast_boil'',
      ''bean_rice_congee'', ''fast_congee'', ''baby_congee'', ''cook_soup'',
      ''congee_coup'', ''steam_corn'', ''steam_red_potato'', ''boil_congee'',
      ''delicious_steam'', ''boil_egg'', ''rice_wine'', ''fruit_vegetable_paste'',
      ''vegetable_porridge'', ''pork_porridge'', ''fragrant_rice'', ''assorte_rice'',
      ''steame_fish'', ''baby_rice'', ''essence_rice'', ''fragrant_dense_congee'',
      ''one_two_cook'', ''original_steame'', ''hot_fast_rice'', ''online_celebrity_rice'',
      ''sushi_rice'', ''stone_bowl_rice'', ''no_water_treat'', ''keep_fresh'',
      ''low_sugar_rice'', ''black_buckwheat_rice'', ''resveratrol_rice'',
      ''yellow_wheat_rice'', ''green_buckwheat_rice'', ''roughage_rice'',
      ''millet_mixed_rice'', ''iron_pan_rice'', ''olla_pan_rice'', ''vegetable_rice'',
      ''baby_side'', ''regimen_congee'', ''earthen_pot_congee'', ''regimen_soup'',
      ''pottery_jar_soup'', ''canton_soup'', ''nutrition_stew'', ''northeast_stew'',
      ''uncap_boil'', ''trichromatic_coarse_grain'', ''four_color_vegetables'', ''egg'',
      ''chop''
     ]
     @ replicate 98 ''unknown''
     @ [''clean'']
     @ replicate 5 ''unknown''
     @ [''keep_warm'', ''diy'']"

definition ec_progress :: "string list" where
  "ec_progress = [''Idle'', ''Cooking'', ''Delay'', ''Keep-warm'', ''Lid-open'', ''Relieving'',
                  ''Keep-pressure'', ''Relieving'', ''Cooking'', ''Relieving'', ''Lid-open'']"

fun ec_default_attributes :: "ec_attr \<Rightarrow> pyval" where
  "ec_default_attributes EC_cooking = PBool False"
| "ec_default_attributes EC_mode = PInt 0"
| "ec_default_attributes EC_time_remaining = PNone"
| "ec_default_attributes EC_top_temperature = PNone"
| "ec_default_attributes EC_bottom_temperature = PNone"
| "ec_default_attributes EC_keep_warm_time = PNone"
| "ec_default_attributes EC_progress = PStr ''Unknown''"
| "ec_default_attributes EC_with_pressure = PNone"

definition ec_attribute_order :: "ec_attr list" where
  "ec_attribute_order =
     [EC_cooking, EC_mode, EC_time_remaining, EC_top_temperature, EC_bottom_temperature,
      EC_keep_warm_time, EC_progress, EC_with_pressure]"

definition ec_new :: "int \<Rightarrow> ec_attr device" where
  "ec_new version = \<lparr>attributes = ec_default_attributes, message_protocol_version = version\<rparr>"

definition ec_build_query :: "ec_attr device \<Rightarrow> message_query list" where
  "ec_build_query dev = [MessageQuery (message_protocol_version dev)]"

definition ec_decode :: "ec_attr \<Rightarrow> pyval \<Rightarrow> error + pyval" where
  "ec_decode status v =
     (if status = EC_progress then
        (case py_num v of
           None \<Rightarrow> Inl TypeError
         | Some i \<Rightarrow>
             (if i < int (length ec_progress) then
                (case py_getitem ec_progress i of Inl e \<Rightarrow> Inl e | Inr l \<Rightarrow> Inr (PStr l))
              else Inr (PStr ''Unknown'')))
      else if status = EC_mode then
        (case py_num v of
           None \<Rightarrow> Inl TypeError
         | Some i \<Rightarrow>
             (if i < int (length ec_mode_list) then
                (case py_getitem ec_mode_list i of Inl e \<Rightarrow> Inl e | Inr l \<Rightarrow> Inr (PStr l))
              else Inr (PStr ''Cloud'')))
      else Inr v)"

definition ec_update ::
  "ec_attr \<Rightarrow> pyval \<Rightarrow> ec_attr pass_state \<Rightarrow> error + ec_attr pass_state" where
  "ec_update status v sr =
     (case ec_decode status v of
        Inl e \<Rightarrow> Inl e
      | Inr d \<Rightarrow>
          (let attrs1 = (fst sr)(status := d)
           in Inr (attrs1, (snd sr)(ec_name status \<mapsto> attrs1 status))))"

text \<open>\<^verbatim>\<open>process_message\<close> of the EC device does not assign
  \<^verbatim>\<open>_message_protocol_version\<close>.\<close>

definition ec_process_message :: "ec_attr device \<Rightarrow> response \<Rightarrow> error + (ec_attr device \<times> report)" where
  "ec_process_message dev message =
     (case for_each_present ec_name ec_update ec_attribute_order message
             (attributes dev, Map.empty) of
        Inl e \<Rightarrow> Inl e
      | Inr (attrs, new_status) \<Rightarrow> Inr (dev\<lparr>attributes := attrs\<rparr>, new_status))"

definition ec_set_attribute :: "ec_attr device \<Rightarrow> string \<Rightarrow> pyval \<Rightarrow> ec_attr device \<times> host_call list" where
  "ec_set_attribute dev attr v = (dev, [])"

section \<open>Inputs of the codec's types and reachable states\<close>

text \<open>
  The codec reads \<^verbatim>\<open>mode\<close>, \<^verbatim>\<open>tank\<close> and \<^verbatim>\<open>water_level_set\<close>
  from bytes of the frame: where present they are integers and not negative. \<open>a1_typed\<close> says so of a response;
  \<open>a1_decodable\<close> says of an attribute dictionary that the recomputation of \<^verbatim>\<open>tank_full\<close>
  does not raise on it; \<open>ec_typed\<close> is \<open>a1_typed\<close> for the EC device. \<open>a1_reachable\<close> are the states of an A1 device after its constructor,
  passes of \<^verbatim>\<open>process_message\<close> that return, and calls of \<^verbatim>\<open>set_attribute\<close>.
\<close>

fun is_uint :: "pyval \<Rightarrow> bool" where
  "is_uint (PInt i) = (0 \<le> i)"
| "is_uint v = False"

definition a1_typed :: "response \<Rightarrow> bool" where
  "a1_typed message =
     (\<forall>f \<in> {''mode'', ''tank'', ''water_level_set''}.
        case msg_fields message f of None \<Rightarrow> True | Some v \<Rightarrow> is_uint v)"

definition ec_typed :: "response \<Rightarrow> bool" where
  "ec_typed message =
     (\<forall>f \<in> {''mode'', ''progress''}.
        case msg_fields message f of None \<Rightarrow> True | Some v \<Rightarrow> is_uint v)"

definition a1_decodable :: "(a1_attr \<Rightarrow> pyval) \<Rightarrow> bool" where
  "a1_decodable attrs =
     ((case py_int (attrs A1_water_level_set) of Inl e \<Rightarrow> False | Inr n \<Rightarrow> True) \<and>
      (py_num (attrs A1_tank) \<noteq> None \<or> \<not> py_bool (attrs A1_tank)))"


section \<open>Facts about the Python operations and the loop\<close>

lemma fep_invariant:
  assumes "for_each_present name body as message sr = Inr sr'" and "I sr"
    and "\<And>s v x y. s \<in> set as \<Longrightarrow> msg_fields message (name s) = Some v \<Longrightarrow>
            body s v x = Inr y \<Longrightarrow> I x \<Longrightarrow> I y"
  shows "I sr'"
  using assms
proof (induction as arbitrary: sr)
  case Nil
  then show ?case by simp
next
  case (Cons s rest)
  show ?case
  proof (cases "msg_fields message (name s)")
    case None
    with Cons.prems(1) have "for_each_present name body rest message sr = Inr sr'" by simp
    moreover have "\<And>s v x y. s \<in> set rest \<Longrightarrow> msg_fields message (name s) = Some v \<Longrightarrow>
            body s v x = Inr y \<Longrightarrow> I x \<Longrightarrow> I y"
      using Cons.prems(3) by (meson list.set_intros(2))
    ultimately show ?thesis using Cons.IH Cons.prems(2) by blast
  next
    case (Some v)
    with Cons.prems(1) obtain x where x: "body s v sr = Inr x"
      and run: "for_each_present name body rest message x = Inr sr'"
      by (auto split: sum.splits)
    have "I x" using Cons.prems(3) [OF _ Some x Cons.prems(2)] by simp
    moreover have "\<And>s v x y. s \<in> set rest \<Longrightarrow> msg_fields message (name s) = Some v \<Longrightarrow>
            body s v x = Inr y \<Longrightarrow> I x \<Longrightarrow> I y"
      using Cons.prems(3) by (meson list.set_intros(2))
    ultimately show ?thesis using Cons.IH run by blast
  qed
qed

lemma fep_establish:
  assumes "for_each_present name body as message sr = Inr sr'"
    and "a \<in> set as" and "distinct as" and "msg_fields message (name a) = Some v"
    and est: "\<And>x y. body a v x = Inr y \<Longrightarrow> Q y"
    and keep: "\<And>s w x y. s \<noteq> a \<Longrightarrow> body s w x = Inr y \<Longrightarrow> Q x \<Longrightarrow> Q y"
  shows "Q sr'"
  using assms(1-3)
proof (induction as arbitrary: sr)
  case Nil
  then show ?case by simp
next
  case (Cons s rest)
  show ?case
  proof (cases "s = a")
    case True
    with Cons.prems(1) assms(4) obtain x where x: "body a v sr = Inr x"
      and run: "for_each_present name body rest message x = Inr sr'"
      by (auto split: sum.splits)
    have "a \<notin> set rest" using Cons.prems(3) True by simp
    then have "\<And>s w x y. s \<in> set rest \<Longrightarrow> msg_fields message (name s) = Some w \<Longrightarrow>
            body s w x = Inr y \<Longrightarrow> Q x \<Longrightarrow> Q y"
      using keep by metis
    from fep_invariant [of name body rest message x sr' Q, OF run est [OF x] this]
    show ?thesis by simp
  next
    case False
    then have mem: "a \<in> set rest" using Cons.prems(2) by simp
    have d: "distinct rest" using Cons.prems(3) by simp
    show ?thesis
    proof (cases "msg_fields message (name s)")
      case None
      with Cons.prems(1) have "for_each_present name body rest message sr = Inr sr'" by simp
      from Cons.IH [OF this mem d] show ?thesis .
    next
      case (Some w)
      with Cons.prems(1) obtain x where x: "body s w sr = Inr x"
        and run: "for_each_present name body rest message x = Inr sr'"
        by (auto split: sum.splits)
      from Cons.IH [OF run mem d] show ?thesis .
    qed
  qed
qed

lemma a1_name_inj [simp]: "a1_name a = a1_name b \<longleftrightarrow> a = b"
  by (cases a; cases b; simp)

lemma a1_name_tank_full [simp]: "a1_name a = ''tank_full'' \<longleftrightarrow> a = A1_tank_full"
  by (cases a; simp)

lemma py_eq_refl [simp]: "py_eq v v"
  by (cases v) simp_all

lemma py_eq_str [simp]: "py_eq v (PStr s) \<longleftrightarrow> v = PStr s"
  by (cases v) auto

lemma py_eq_none [simp]: "py_eq v PNone \<longleftrightarrow> v = PNone"
  by (cases v) auto

lemma py_eq_int: "py_eq v (PInt k) \<longleftrightarrow> py_num v = Some k"
  by (cases v) auto

lemma py_eq_bool: "py_eq v (PBool b) \<longleftrightarrow> py_num v = Some (if b then 1 else 0)"
  by (cases v) auto

declare py_eq.simps [simp del]

lemma a1_name_tank_full' [simp]: "''tank_full'' = a1_name a \<longleftrightarrow> a = A1_tank_full"
  by (cases a; simp)

lemma a1_update_elim:
  assumes "a1_update s v x = Inr y"
  obtains (recomputed) d wl calc where
      "a1_decode s v = Inr d"
      "py_int (((fst x)(s := d)) A1_water_level_set) = Inr wl"
      "tank_full_calculated (((fst x)(s := d)) A1_tank) wl = Inr calc"
      "((fst x)(s := d)) A1_tank_full = PNone \<or> \<not> py_eq (((fst x)(s := d)) A1_tank_full) (PBool calc)"
      "fst y = (fst x)(s := d, A1_tank_full := PBool calc)"
      "snd y = (snd x)(''tank_full'' \<mapsto> PBool calc,
                       a1_name s \<mapsto> ((fst x)(s := d, A1_tank_full := PBool calc)) s)"
  | (unchanged) d wl calc where
      "a1_decode s v = Inr d"
      "py_int (((fst x)(s := d)) A1_water_level_set) = Inr wl"
      "tank_full_calculated (((fst x)(s := d)) A1_tank) wl = Inr calc"
      "((fst x)(s := d)) A1_tank_full \<noteq> PNone"
      "py_eq (((fst x)(s := d)) A1_tank_full) (PBool calc)"
      "fst y = (fst x)(s := d)"
      "snd y = (snd x)(a1_name s \<mapsto> d)"
proof -
  from assms obtain d where d: "a1_decode s v = Inr d"
    by (auto simp: a1_update_def split: sum.splits)
  from assms d obtain wl where wl: "py_int (((fst x)(s := d)) A1_water_level_set) = Inr wl"
    by (auto simp: a1_update_def Let_def split: sum.splits)
  from assms d wl obtain calc where
    calc: "tank_full_calculated (((fst x)(s := d)) A1_tank) wl = Inr calc"
    by (auto simp: a1_update_def Let_def split: sum.splits)
  show thesis
  proof (cases "((fst x)(s := d)) A1_tank_full = PNone \<or>
                \<not> py_eq (((fst x)(s := d)) A1_tank_full) (PBool calc)")
    case True
    with assms d wl calc
    have "y = ((fst x)(s := d, A1_tank_full := PBool calc),
               (snd x)(''tank_full'' \<mapsto> PBool calc,
                       a1_name s \<mapsto> ((fst x)(s := d, A1_tank_full := PBool calc)) s))"
      unfolding a1_update_def Let_def by (simp only: sum.case if_True) simp
    then show thesis using recomputed [OF d wl calc True] by simp
  next
    case False
    with assms d wl calc
    have "y = ((fst x)(s := d), (snd x)(a1_name s \<mapsto> d))"
      unfolding a1_update_def Let_def by (simp only: sum.case if_False) simp
    then show thesis using unchanged [OF d wl calc] False by simp
  qed
qed

lemma a1_update_frame:
  assumes "a1_update s v x = Inr y" and "a \<noteq> s" and "a \<noteq> A1_tank_full"
  shows "fst y a = fst x a \<and> snd y (a1_name a) = snd x (a1_name a)"
  using assms(1)
  by (cases rule: a1_update_elim) (simp_all add: assms(2,3))

lemma a1_update_self:
  assumes "a1_update s v x = Inr y"
  shows "snd y (a1_name s) = Some (fst y s)"
  using assms(1)
  by (cases rule: a1_update_elim) simp_all

lemma a1_update_decoded:
  assumes "a1_update s v x = Inr y" and "s \<noteq> A1_tank_full"
  shows "a1_decode s v = Inr (fst y s)"
  using assms(1)
  by (cases rule: a1_update_elim) (simp_all add: assms(2))

lemma a1_update_tank_full_reported:
  assumes "a1_update s v x = Inr y" and "fst y A1_tank_full \<noteq> fst x A1_tank_full"
  shows "snd y ''tank_full'' = Some (fst y A1_tank_full)"
  using assms(1)
proof (cases rule: a1_update_elim)
  case (recomputed d wl calc)
  then show ?thesis by (cases "s = A1_tank_full") simp_all
next
  case (unchanged d wl calc)
  with assms(2) show ?thesis by (cases "s = A1_tank_full") simp_all
qed

lemma a1_update_tank_full_kept:
  assumes "a1_update s v x = Inr y" and "snd x ''tank_full'' = Some (fst x A1_tank_full)"
  shows "snd y ''tank_full'' = Some (fst y A1_tank_full)"
  using assms(1)
proof (cases rule: a1_update_elim)
  case (recomputed d wl calc)
  then show ?thesis by (cases "s = A1_tank_full") simp_all
next
  case (unchanged d wl calc)
  with assms(2) show ?thesis by (cases "s = A1_tank_full") simp_all
qed

lemma a1_update_dom:
  assumes "a1_update s v x = Inr y"
  shows "dom (snd y) \<subseteq> dom (snd x) \<union> {a1_name s, ''tank_full''}"
  using assms(1)
  by (cases rule: a1_update_elim) auto



lemma a1_update_tank_full_consistent:
  assumes "a1_update s v x = Inr y"
    and "snd x ''tank_full'' = None \<or> snd x ''tank_full'' = Some (fst x A1_tank_full)"
  shows "snd y ''tank_full'' = None \<or> snd y ''tank_full'' = Some (fst y A1_tank_full)"
  using assms(1)
proof (cases rule: a1_update_elim)
  case (recomputed d wl calc)
  then show ?thesis by (cases "s = A1_tank_full") simp_all
next
  case (unchanged d wl calc)
  with assms(2) show ?thesis by (cases "s = A1_tank_full") auto
qed

lemma a1_attribute_order_complete: "a \<in> set a1_attribute_order"
  by (cases a) (simp_all add: a1_attribute_order_def)

lemma a1_attribute_order_distinct: "distinct a1_attribute_order"
  by (simp add: a1_attribute_order_def)

lemma a1_pass_absent:
  assumes "for_each_present a1_name a1_update as message sr = Inr sr'"
    and "a \<noteq> A1_tank_full" and "msg_fields message (a1_name a) = None"
  shows "fst sr' a = fst sr a \<and> snd sr' (a1_name a) = snd sr (a1_name a)"
proof (rule fep_invariant [OF assms(1), where I = "\<lambda>z. fst z a = fst sr a \<and> snd z (a1_name a) = snd sr (a1_name a)"])
  show "fst sr a = fst sr a \<and> snd sr (a1_name a) = snd sr (a1_name a)" by simp
next
  fix s v x y
  assume "msg_fields message (a1_name s) = Some v" and u: "a1_update s v x = Inr y"
    and I: "fst x a = fst sr a \<and> snd x (a1_name a) = snd sr (a1_name a)"
  then have "a \<noteq> s" using assms(3) by auto
  from a1_update_frame [OF u this assms(2)] I
  show "fst y a = fst sr a \<and> snd y (a1_name a) = snd sr (a1_name a)" by simp
qed

lemma a1_pass_present:
  assumes "for_each_present a1_name a1_update a1_attribute_order message sr = Inr sr'"
    and "msg_fields message (a1_name a) = Some v"
  shows "snd sr' (a1_name a) = Some (fst sr' a)"
    and "a \<noteq> A1_tank_full \<Longrightarrow> a1_decode a v = Inr (fst sr' a)"
proof -
  note est = fep_establish [OF assms(1) a1_attribute_order_complete a1_attribute_order_distinct assms(2)]
  show "snd sr' (a1_name a) = Some (fst sr' a)"
  proof (cases "a = A1_tank_full")
    case True
    have "snd sr' ''tank_full'' = Some (fst sr' A1_tank_full)"
    proof (rule est [where Q = "\<lambda>z. snd z ''tank_full'' = Some (fst z A1_tank_full)"])
      fix x y assume "a1_update a v x = Inr y"
      from a1_update_self [OF this] True
      show "snd y ''tank_full'' = Some (fst y A1_tank_full)" by simp
    next
      fix s w x y
      assume "a1_update s w x = Inr y" and "snd x ''tank_full'' = Some (fst x A1_tank_full)"
      then show "snd y ''tank_full'' = Some (fst y A1_tank_full)"
        by (rule a1_update_tank_full_kept)
    qed
    with True show ?thesis by simp
  next
    case False
    show ?thesis
    proof (rule est [where Q = "\<lambda>z. snd z (a1_name a) = Some (fst z a)"])
      fix x y assume "a1_update a v x = Inr y"
      then show "snd y (a1_name a) = Some (fst y a)" by (rule a1_update_self)
    next
      fix s w x y
      assume "s \<noteq> a" and u: "a1_update s w x = Inr y" and "snd x (a1_name a) = Some (fst x a)"
      with a1_update_frame [OF u _ False, of ] show "snd y (a1_name a) = Some (fst y a)"
        by auto
    qed
  qed
  show "a1_decode a v = Inr (fst sr' a)" if nd: "a \<noteq> A1_tank_full"
  proof (rule est [where Q = "\<lambda>z. a1_decode a v = Inr (fst z a)"])
    fix x y assume "a1_update a v x = Inr y"
    then show "a1_decode a v = Inr (fst y a)" using nd by (rule a1_update_decoded)
  next
    fix s w x y
    assume "s \<noteq> a" and u: "a1_update s w x = Inr y" and "a1_decode a v = Inr (fst x a)"
    with a1_update_frame [OF u _ nd] show "a1_decode a v = Inr (fst y a)"
      by auto
  qed
qed

lemma a1_pass_dom:
  assumes "for_each_present a1_name a1_update as message sr = Inr sr'"
  shows "dom (snd sr') \<subseteq>
           dom (snd sr) \<union> {a1_name a | a. msg_fields message (a1_name a) \<noteq> None} \<union> {''tank_full''}"
proof (rule fep_invariant [OF assms(1), where I = "\<lambda>z. dom (snd z) \<subseteq>
           dom (snd sr) \<union> {a1_name a | a. msg_fields message (a1_name a) \<noteq> None} \<union> {''tank_full''}"])
  show "dom (snd sr) \<subseteq>
           dom (snd sr) \<union> {a1_name a | a. msg_fields message (a1_name a) \<noteq> None} \<union> {''tank_full''}"
    by auto
next
  fix s v x y
  assume f: "msg_fields message (a1_name s) = Some v" and u: "a1_update s v x = Inr y"
    and I: "dom (snd x) \<subseteq>
           dom (snd sr) \<union> {a1_name a | a. msg_fields message (a1_name a) \<noteq> None} \<union> {''tank_full''}"
  have "a1_name s \<in> {a1_name a | a. msg_fields message (a1_name a) \<noteq> None}"
    using f by auto
  with a1_update_dom [OF u] I
  show "dom (snd y) \<subseteq>
           dom (snd sr) \<union> {a1_name a | a. msg_fields message (a1_name a) \<noteq> None} \<union> {''tank_full''}"
    by blast
qed

lemma a1_pass_tank_full_reported:
  assumes "for_each_present a1_name a1_update as message sr = Inr sr'"
    and "fst sr' A1_tank_full \<noteq> fst sr A1_tank_full"
  shows "snd sr' ''tank_full'' = Some (fst sr' A1_tank_full)"
proof -
  have "snd sr' ''tank_full'' = Some (fst sr' A1_tank_full) \<or> fst sr' A1_tank_full = fst sr A1_tank_full"
  proof (rule fep_invariant [OF assms(1), where I = "\<lambda>z. snd z ''tank_full'' = Some (fst z
      A1_tank_full) \<or> fst z A1_tank_full = fst sr A1_tank_full"])
    show "snd sr ''tank_full'' = Some (fst sr A1_tank_full) \<or> fst sr A1_tank_full = fst sr A1_tank_full"
      by simp
  next
    fix s v x y
    assume u: "a1_update s v x = Inr y"
      and I: "snd x ''tank_full'' = Some (fst x A1_tank_full) \<or> fst x A1_tank_full = fst sr A1_tank_full"
    show "snd y ''tank_full'' = Some (fst y A1_tank_full) \<or> fst y A1_tank_full = fst sr A1_tank_full"
      using a1_update_tank_full_kept [OF u] a1_update_tank_full_reported [OF u] I by metis
  qed
  with assms(2) show ?thesis by simp
qed

lemma a1_pass_tank_full_consistent:
  assumes "for_each_present a1_name a1_update as message sr = Inr sr'"
    and "snd sr ''tank_full'' = None"
  shows "snd sr' ''tank_full'' = None \<or> snd sr' ''tank_full'' = Some (fst sr' A1_tank_full)"
proof (rule fep_invariant [OF assms(1), where I = "\<lambda>z. snd z ''tank_full'' = None \<or> snd z ''tank_full'' = Some (fst z A1_tank_full)"])
  show "snd sr ''tank_full'' = None \<or> snd sr ''tank_full'' = Some (fst sr A1_tank_full)"
    using assms(2) by simp
next
  fix s v x y
  assume "a1_update s v x = Inr y"
    and "snd x ''tank_full'' = None \<or> snd x ''tank_full'' = Some (fst x A1_tank_full)"
  then show "snd y ''tank_full'' = None \<or> snd y ''tank_full'' = Some (fst y A1_tank_full)"
    by (rule a1_update_tank_full_consistent)
qed

lemma a1_process_message_elim:
  assumes "a1_process_message dev message = Inr (dev', rep)"
  obtains attrs where
    "for_each_present a1_name a1_update a1_attribute_order message (attributes dev, Map.empty)
       = Inr (attrs, rep)"
    "dev' = \<lparr>attributes = attrs, message_protocol_version = protocol_version message\<rparr>"
  using assms by (auto simp: a1_process_message_def split: sum.splits)

lemma fep_plain_absent:
  assumes run: "for_each_present name body as message sr = Inr sr'"
    and plain: "\<forall>s v x y. body s v x = Inr y \<longrightarrow>
                  (\<exists>d. dec s v = Inr d \<and> y = ((fst x)(s := d), (snd x)(name s \<mapsto> d)))"
    and inj: "inj name"
    and ab: "msg_fields message (name a) = None"
  shows "fst sr' a = fst sr a \<and> snd sr' (name a) = snd sr (name a)"
proof (rule fep_invariant [OF run, where I = "\<lambda>z. fst z a = fst sr a \<and> snd z (name a) = snd sr (name a)"])
  show "fst sr a = fst sr a \<and> snd sr (name a) = snd sr (name a)" by simp
next
  fix s v x y
  assume f: "msg_fields message (name s) = Some v" and b: "body s v x = Inr y"
    and I: "fst x a = fst sr a \<and> snd x (name a) = snd sr (name a)"
  have sa: "s \<noteq> a" using f ab by (cases "s = a") simp_all
  then have na: "name a \<noteq> name s" using inj by (simp add: inj_eq)
  have "\<exists>d. dec s v = Inr d \<and> y = ((fst x)(s := d), (snd x)(name s \<mapsto> d))"
    using plain b by (elim allE impE) assumption+
  then obtain d where y: "y = ((fst x)(s := d), (snd x)(name s \<mapsto> d))" by (elim exE conjE)
  have "fst y a = fst x a" using sa by (simp add: y)
  moreover have "snd y (name a) = snd x (name a)" using na by (simp add: y)
  ultimately show "fst y a = fst sr a \<and> snd y (name a) = snd sr (name a)" using I by simp
qed

lemma fep_plain_present:
  assumes run: "for_each_present name body as message sr = Inr sr'"
    and plain: "\<forall>s v x y. body s v x = Inr y \<longrightarrow>
                  (\<exists>d. dec s v = Inr d \<and> y = ((fst x)(s := d), (snd x)(name s \<mapsto> d)))"
    and inj: "inj name"
    and mem: "a \<in> set as" and dist: "distinct as"
    and pr: "msg_fields message (name a) = Some v"
  shows "snd sr' (name a) = Some (fst sr' a) \<and> dec a v = Inr (fst sr' a)"
proof (rule fep_establish [OF run mem dist pr, where Q = "\<lambda>z. snd z (name a) = Some (fst z a) \<and> dec a v = Inr (fst z a)"])
  fix x y assume b: "body a v x = Inr y"
  have "\<exists>d. dec a v = Inr d \<and> y = ((fst x)(a := d), (snd x)(name a \<mapsto> d))"
    using plain b by (elim allE impE) assumption+
  then obtain d where d: "dec a v = Inr d"
    and y: "y = ((fst x)(a := d), (snd x)(name a \<mapsto> d))" by (elim exE conjE)
  have "fst y a = d" and "snd y (name a) = Some d" by (simp_all add: y)
  with d show "snd y (name a) = Some (fst y a) \<and> dec a v = Inr (fst y a)" by simp
next
  fix s w x y
  assume sa: "s \<noteq> a" and b: "body s w x = Inr y"
    and Q: "snd x (name a) = Some (fst x a) \<and> dec a v = Inr (fst x a)"
  from sa have na: "name a \<noteq> name s" using inj by (simp add: inj_eq)
  have "\<exists>d. dec s w = Inr d \<and> y = ((fst x)(s := d), (snd x)(name s \<mapsto> d))"
    using plain b by (elim allE impE) assumption+
  then obtain d where y: "y = ((fst x)(s := d), (snd x)(name s \<mapsto> d))" by (elim exE conjE)
  have "fst y a = fst x a" using sa by (simp add: y)
  moreover have "snd y (name a) = snd x (name a)" using na by (simp add: y)
  ultimately show "snd y (name a) = Some (fst y a) \<and> dec a v = Inr (fst y a)" using Q by simp
qed

lemma fep_plain_dom:
  assumes run: "for_each_present name body as message sr = Inr sr'"
    and plain: "\<forall>s v x y. body s v x = Inr y \<longrightarrow>
                  (\<exists>d. dec s v = Inr d \<and> y = ((fst x)(s := d), (snd x)(name s \<mapsto> d)))"
  shows "dom (snd sr') \<subseteq> dom (snd sr) \<union> name ` {a. msg_fields message (name a) \<noteq> None}"
proof (rule fep_invariant [OF run, where I = "\<lambda>z. dom (snd z) \<subseteq> dom (snd sr)
    \<union> name ` {a. msg_fields message (name a) \<noteq> None}"])
  show "dom (snd sr) \<subseteq> dom (snd sr) \<union> name ` {a. msg_fields message (name a) \<noteq> None}" by simp
next
  fix s v x y
  assume f: "msg_fields message (name s) = Some v" and b: "body s v x = Inr y"
    and I: "dom (snd x) \<subseteq> dom (snd sr) \<union> name ` {a. msg_fields message (name a) \<noteq> None}"
  have mem: "name s \<in> name ` {a. msg_fields message (name a) \<noteq> None}"
    using f by (intro imageI) simp
  have "\<exists>d. dec s v = Inr d \<and> y = ((fst x)(s := d), (snd x)(name s \<mapsto> d))"
    using plain b by (elim allE impE) assumption+
  then obtain d where y: "y = ((fst x)(s := d), (snd x)(name s \<mapsto> d))" by (elim exE conjE)
  have "dom (snd y) = insert (name s) (dom (snd x))" by (simp add: y)
  with mem I
  show "dom (snd y) \<subseteq> dom (snd sr) \<union> name ` {a. msg_fields message (name a) \<noteq> None}"
    by simp
qed

lemma fep_returns:
  assumes "\<And>s v x. s \<in> set as \<Longrightarrow> msg_fields message (name s) = Some v \<Longrightarrow> \<exists>y. body s v x = Inr y"
  shows "\<exists>sr'. for_each_present name body as message sr = Inr sr'"
  using assms
proof (induction as arbitrary: sr)
  case Nil
  then show ?case by simp
next
  case (Cons s rest)
  have rest: "\<And>z. \<exists>sr'. for_each_present name body rest message z = Inr sr'"
    using Cons.IH Cons.prems by (meson list.set_intros(2))
  show ?case
  proof (cases "msg_fields message (name s)")
    case None
    with rest show ?thesis by simp
  next
    case (Some v)
    have "\<exists>y. body s v sr = Inr y" using Cons.prems [of s v sr] Some by simp
    then obtain y where "body s v sr = Inr y" ..
    with Some rest [of y] show ?thesis by simp
  qed
qed

lemma b1_name_inj: "inj b1_name"
proof (rule injI)
  fix a b show "b1_name a = b1_name b \<Longrightarrow> a = b" by (cases a; cases b; simp)
qed

lemma ec_name_inj: "inj ec_name"
proof (rule injI)
  fix a b show "ec_name a = ec_name b \<Longrightarrow> a = b" by (cases a; cases b; simp)
qed

lemma b1_update_plain:
  "\<forall>s v x y. b1_update s v x = Inr y \<longrightarrow>
     (\<exists>d. (Inr (b1_decode s v) :: error + pyval) = Inr d \<and>
          y = ((fst x)(s := d), (snd x)(b1_name s \<mapsto> d)))"
  by (simp add: b1_update_def Let_def)

lemma ec_update_plain:
  "\<forall>s v x y. ec_update s v x = Inr y \<longrightarrow>
     (\<exists>d. ec_decode s v = Inr d \<and> y = ((fst x)(s := d), (snd x)(ec_name s \<mapsto> d)))"
  by (auto simp: ec_update_def Let_def split: sum.splits)

lemma b1_attribute_order_complete: "a \<in> set b1_attribute_order"
  by (cases a) (simp_all add: b1_attribute_order_def)

lemma b1_attribute_order_distinct: "distinct b1_attribute_order"
  by (simp add: b1_attribute_order_def)

lemma ec_attribute_order_complete: "a \<in> set ec_attribute_order"
  by (cases a) (simp_all add: ec_attribute_order_def)

lemma ec_attribute_order_distinct: "distinct ec_attribute_order"
  by (simp add: ec_attribute_order_def)

lemma b1_process_message_returns:
  "\<exists>attrs rep. for_each_present b1_name b1_update b1_attribute_order message (attributes dev, Map.empty) = Inr (attrs, rep)
      \<and> b1_process_message dev message = Inr (dev\<lparr>attributes := attrs\<rparr>, rep)"
proof -
  have "\<exists>sr'. for_each_present b1_name b1_update b1_attribute_order message (attributes dev, Map.empty) = Inr sr'"
    by (rule fep_returns) (simp add: b1_update_def Let_def)
  then show ?thesis by (auto simp: b1_process_message_def)
qed

lemma b1_process_message_elim:
  assumes "b1_process_message dev message = Inr (dev', rep)"
  obtains attrs where
    "for_each_present b1_name b1_update b1_attribute_order message (attributes dev, Map.empty)
       = Inr (attrs, rep)"
    "dev' = dev\<lparr>attributes := attrs\<rparr>"
  using assms by (auto simp: b1_process_message_def split: sum.splits)

lemma ec_process_message_elim:
  assumes "ec_process_message dev message = Inr (dev', rep)"
  obtains attrs where
    "for_each_present ec_name ec_update ec_attribute_order message (attributes dev, Map.empty)
       = Inr (attrs, rep)"
    "dev' = dev\<lparr>attributes := attrs\<rparr>"
  using assms by (auto simp: ec_process_message_def split: sum.splits)

lemma b1_process_message_frame:
  assumes "b1_process_message dev message = Inr (dev', rep)"
  shows "msg_fields message (b1_name a) = None \<Longrightarrow>
           attributes dev' a = attributes dev a \<and> rep (b1_name a) = None"
    and "msg_fields message (b1_name a) = Some v \<Longrightarrow>
           rep (b1_name a) = Some (attributes dev' a) \<and> attributes dev' a = b1_decode a v"
    and "dom rep = b1_name ` {a. msg_fields message (b1_name a) \<noteq> None}"
    and "message_protocol_version dev' = message_protocol_version dev"
proof -
  from assms obtain attrs where
    run: "for_each_present b1_name b1_update b1_attribute_order message (attributes dev, Map.empty)
       = Inr (attrs, rep)" and dev': "dev' = dev\<lparr>attributes := attrs\<rparr>"
    by (rule b1_process_message_elim)
  show "attributes dev' a = attributes dev a \<and> rep (b1_name a) = None"
    if "msg_fields message (b1_name a) = None"
    using fep_plain_absent [OF run b1_update_plain b1_name_inj that] by (simp add: dev')
  have 2: "rep (b1_name a) = Some (attributes dev' a) \<and> attributes dev' a = b1_decode a v"
    if "msg_fields message (b1_name a) = Some v" for a v
    using fep_plain_present [OF run b1_update_plain b1_name_inj b1_attribute_order_complete
        b1_attribute_order_distinct that] by (simp add: dev')
  show "rep (b1_name a) = Some (attributes dev' a) \<and> attributes dev' a = b1_decode a v"
    if "msg_fields message (b1_name a) = Some v"
    using 2 that .
  show "dom rep = b1_name ` {a. msg_fields message (b1_name a) \<noteq> None}"
  proof
    show "dom rep \<subseteq> b1_name ` {a. msg_fields message (b1_name a) \<noteq> None}"
      using fep_plain_dom [OF run b1_update_plain] by simp
    show "b1_name ` {a. msg_fields message (b1_name a) \<noteq> None} \<subseteq> dom rep"
    proof
      fix n assume "n \<in> b1_name ` {a. msg_fields message (b1_name a) \<noteq> None}"
      then obtain a v where "n = b1_name a" and "msg_fields message (b1_name a) = Some v"
        by auto
      with 2 [of a v] show "n \<in> dom rep" by (simp add: domI)
    qed
  qed
  show "message_protocol_version dev' = message_protocol_version dev"
    by (simp add: dev')
qed

lemma ec_process_message_frame:
  assumes "ec_process_message dev message = Inr (dev', rep)"
  shows "msg_fields message (ec_name a) = None \<Longrightarrow>
           attributes dev' a = attributes dev a \<and> rep (ec_name a) = None"
    and "msg_fields message (ec_name a) = Some v \<Longrightarrow>
           rep (ec_name a) = Some (attributes dev' a) \<and> ec_decode a v = Inr (attributes dev' a)"
    and "dom rep = ec_name ` {a. msg_fields message (ec_name a) \<noteq> None}"
    and "message_protocol_version dev' = message_protocol_version dev"
proof -
  from assms obtain attrs where
    run: "for_each_present ec_name ec_update ec_attribute_order message (attributes dev, Map.empty)
       = Inr (attrs, rep)" and dev': "dev' = dev\<lparr>attributes := attrs\<rparr>"
    by (rule ec_process_message_elim)
  show "attributes dev' a = attributes dev a \<and> rep (ec_name a) = None"
    if "msg_fields message (ec_name a) = None"
    using fep_plain_absent [OF run ec_update_plain ec_name_inj that] by (simp add: dev')
  have 2: "rep (ec_name a) = Some (attributes dev' a) \<and> ec_decode a v = Inr (attributes dev' a)"
    if "msg_fields message (ec_name a) = Some v" for a v
    using fep_plain_present [OF run ec_update_plain ec_name_inj ec_attribute_order_complete
        ec_attribute_order_distinct that] by (simp add: dev')
  show "rep (ec_name a) = Some (attributes dev' a) \<and> ec_decode a v = Inr (attributes dev' a)"
    if "msg_fields message (ec_name a) = Some v"
    using 2 that .
  show "dom rep = ec_name ` {a. msg_fields message (ec_name a) \<noteq> None}"
  proof
    show "dom rep \<subseteq> ec_name ` {a. msg_fields message (ec_name a) \<noteq> None}"
      using fep_plain_dom [OF run ec_update_plain] by simp
    show "ec_name ` {a. msg_fields message (ec_name a) \<noteq> None} \<subseteq> dom rep"
    proof
      fix n assume "n \<in> ec_name ` {a. msg_fields message (ec_name a) \<noteq> None}"
      then obtain a v where "n = ec_name a" and "msg_fields message (ec_name a) = Some v"
        by auto
      with 2 [of a v] show "n \<in> dom rep" by (simp add: domI)
    qed
  qed
  show "message_protocol_version dev' = message_protocol_version dev"
    by (simp add: dev')
qed

lemma a1_process_message_frame:
  assumes "a1_process_message dev message = Inr (dev', rep)"
  shows "a \<noteq> A1_tank_full \<Longrightarrow> msg_fields message (a1_name a) = None \<Longrightarrow>
           attributes dev' a = attributes dev a \<and> rep (a1_name a) = None"
    and "msg_fields message (a1_name a) = Some v \<Longrightarrow> rep (a1_name a) = Some (attributes dev' a)"
    and "msg_fields message (a1_name a) = Some v \<Longrightarrow> a \<noteq> A1_tank_full \<Longrightarrow>
           a1_decode a v = Inr (attributes dev' a)"
    and "dom rep \<subseteq> {a1_name a | a. msg_fields message (a1_name a) \<noteq> None} \<union> {''tank_full''}"
    and "rep ''tank_full'' = None \<or> rep ''tank_full'' = Some (attributes dev' A1_tank_full)"
    and "attributes dev' A1_tank_full \<noteq> attributes dev A1_tank_full \<Longrightarrow>
           rep ''tank_full'' = Some (attributes dev' A1_tank_full)"
    and "message_protocol_version dev' = protocol_version message"
proof -
  from assms obtain attrs where
    run: "for_each_present a1_name a1_update a1_attribute_order message (attributes dev, Map.empty)
       = Inr (attrs, rep)"
    and dev': "dev' = \<lparr>attributes = attrs, message_protocol_version = protocol_version message\<rparr>"
    by (rule a1_process_message_elim)
  show "attributes dev' a = attributes dev a \<and> rep (a1_name a) = None"
    if "a \<noteq> A1_tank_full" and "msg_fields message (a1_name a) = None"
    using a1_pass_absent [OF run that] by (simp add: dev')
  show "rep (a1_name a) = Some (attributes dev' a)" if "msg_fields message (a1_name a) = Some v"
    using a1_pass_present(1) [OF run that] by (simp add: dev')
  show "a1_decode a v = Inr (attributes dev' a)"
    if "msg_fields message (a1_name a) = Some v" and "a \<noteq> A1_tank_full"
    using a1_pass_present(2) [OF run that] by (simp add: dev')
  show "dom rep \<subseteq> {a1_name a | a. msg_fields message (a1_name a) \<noteq> None} \<union> {''tank_full''}"
    using a1_pass_dom [OF run] by simp
  show "rep ''tank_full'' = None \<or> rep ''tank_full'' = Some (attributes dev' A1_tank_full)"
    using a1_pass_tank_full_consistent [OF run] by (simp add: dev')
  show "rep ''tank_full'' = Some (attributes dev' A1_tank_full)"
    if "attributes dev' A1_tank_full \<noteq> attributes dev A1_tank_full"
    using a1_pass_tank_full_reported [OF run] that by (simp add: dev')
  show "message_protocol_version dev' = protocol_version message"
    by (simp add: dev')
qed

section \<open>Properties of the devices\<close>

subsection \<open>The derived attribute \<^verbatim>\<open>tank_full\<close>\<close>



lemmas a1_eval = a1_process_message_def a1_attribute_order_def a1_update_def a1_decode_def
  tank_full_calculated_def py_ge_def Let_def a1_modes_def a1_speeds_def py_getitem_def
  dict_contains_def py_eq.simps


subsection \<open>The mode table of the A1 device\<close>

lemma a1_decode_mode_int:
  "a1_decode A1_mode (PInt i) =
     (if 5 < i then Inr PNone
      else if 1 \<le> i then Inr (PStr (a1_modes ! nat (i - 1)))
      else if - 4 \<le> i then Inr (PStr (a1_modes ! nat (i + 4)))
      else Inl IndexError)"
  by (simp add: a1_decode_def py_getitem_def a1_modes_def add.commute)

lemma a1_decode_mode_examples:
  "a1_decode A1_mode (PInt 3) = Inr (PStr ''Auto'')"
  "a1_decode A1_mode (PInt 9) = Inr PNone"
  "a1_decode A1_mode (PInt 0) = Inr (PStr ''Shoes-Dry'')"
  by (simp_all add: a1_decode_mode_int) (simp_all add: a1_modes_def)

text \<open>
  C10. A message whose \<^verbatim>\<open>mode\<close> field is 0 passes the guard \<^verbatim>\<open>value <= len(_modes)\<close>,
  and \<^verbatim>\<open>_modes[value - 1]\<close> is \<^verbatim>\<open>_modes[-1]\<close>: the stored and reported mode is the last
  entry of the table, "Shoes-Dry", not \<^verbatim>\<open>None\<close>.
\<close>

theorem a1_mode_zero_is_last_label:
  assumes "msg_fields message ''mode'' = Some (PInt 0)"
    and "a1_process_message dev message = Inr (dev', rep)"
  shows "attributes dev' A1_mode = PStr (last a1_modes) \<and>
         last a1_modes = ''Shoes-Dry'' \<and>
         attributes dev' A1_mode \<noteq> PNone \<and>
         rep ''mode'' = Some (PStr ''Shoes-Dry'') \<and>
         (0 :: int) \<le> int (length a1_modes)"
proof -
  have f: "msg_fields message (a1_name A1_mode) = Some (PInt 0)" using assms(1) by simp
  from a1_process_message_frame(3) [OF assms(2) f]
  have m: "attributes dev' A1_mode = PStr ''Shoes-Dry''"
    by (simp add: a1_decode_mode_examples)
  from a1_process_message_frame(2) [OF assms(2) f] m
  have "rep ''mode'' = Some (PStr ''Shoes-Dry'')" by simp
  with m show ?thesis by (simp add: a1_modes_def)
qed

theorem a1_mode_zero_is_last_label_witness:
  "msg_fields \<lparr>protocol_version = 2, msg_fields = [''mode'' \<mapsto> PInt 0, ''power'' \<mapsto> PBool True]\<rparr>
     ''mode'' = Some (PInt 0) \<and>
   a1_process_message (a1_new 0)
       \<lparr>protocol_version = 2, msg_fields = [''mode'' \<mapsto> PInt 0, ''power'' \<mapsto> PBool True]\<rparr>
     = Inr (\<lparr>attributes = a1_default_attributes
                (A1_power := PBool True, A1_tank_full := PBool False, A1_mode := PStr ''Shoes-Dry''),
              message_protocol_version = 2\<rparr>,
            [''tank_full'' \<mapsto> PBool False, ''power'' \<mapsto> PBool True,
             ''mode'' \<mapsto> PStr ''Shoes-Dry'']) \<and>
   (attributes \<lparr>attributes = a1_default_attributes
                (A1_power := PBool True, A1_tank_full := PBool False, A1_mode := PStr ''Shoes-Dry''),
              message_protocol_version = 2\<rparr> A1_mode = PStr (last a1_modes) \<and>
    last a1_modes = ''Shoes-Dry'' \<and>
    attributes \<lparr>attributes = a1_default_attributes
                (A1_power := PBool True, A1_tank_full := PBool False, A1_mode := PStr ''Shoes-Dry''),
              message_protocol_version = 2\<rparr> A1_mode \<noteq> PNone \<and>
    [''tank_full'' \<mapsto> PBool False, ''power'' \<mapsto> PBool True, ''mode'' \<mapsto> PStr ''Shoes-Dry'']
      ''mode'' = Some (PStr ''Shoes-Dry'') \<and>
    (0 :: int) \<le> int (length a1_modes))"
proof -
  have f: "msg_fields \<lparr>protocol_version = 2,
                       msg_fields = [''mode'' \<mapsto> PInt 0, ''power'' \<mapsto> PBool True]\<rparr>
             ''mode'' = Some (PInt 0)"
    by simp
  have p: "a1_process_message (a1_new 0)
       \<lparr>protocol_version = 2, msg_fields = [''mode'' \<mapsto> PInt 0, ''power'' \<mapsto> PBool True]\<rparr>
     = Inr (\<lparr>attributes = a1_default_attributes
                (A1_power := PBool True, A1_tank_full := PBool False, A1_mode := PStr ''Shoes-Dry''),
              message_protocol_version = 2\<rparr>,
            [''tank_full'' \<mapsto> PBool False, ''power'' \<mapsto> PBool True,
             ''mode'' \<mapsto> PStr ''Shoes-Dry''])"
    by (simp add: a1_eval a1_new_def)
  show ?thesis
    by (rule conjI [OF f conjI [OF p a1_mode_zero_is_last_label [OF f p]]])
qed

text \<open>
  C4. The guard of the mode lookup has no lower bound. Raw mode 0, which selects no position
  of the 1-based table, is stored and reported as "Shoes-Dry" instead of \<^verbatim>\<open>None\<close>.
  (Codes above 5 do decode to \<^verbatim>\<open>None\<close>, and 3 to "Auto": \<open>a1_decode_mode_int\<close>,
  \<open>a1_decode_mode_examples\<close>.)
\<close>

theorem a1_mode_zero_not_null:
  "a1_process_message (a1_new 0) \<lparr>protocol_version = 0, msg_fields = [''mode'' \<mapsto> PInt 0]\<rparr>
     = Inr (\<lparr>attributes = a1_default_attributes
                (A1_mode := PStr ''Shoes-Dry'', A1_tank_full := PBool False),
              message_protocol_version = 0\<rparr>,
            [''tank_full'' \<mapsto> PBool False, ''mode'' \<mapsto> PStr ''Shoes-Dry''])"
  by (simp add: a1_eval a1_new_def)

subsection \<open>The program catalog of the EC device\<close>

lemma ec_mode_list_length: "length ec_mode_list = 200"
  by (simp add: ec_mode_list_def)

lemma ec_mode_list_cloud: "''Cloud'' \<notin> set ec_mode_list"
  by (simp add: ec_mode_list_def)

lemma ec_mode_list_unknown: "''unknown'' \<in> set ec_mode_list"
  by (simp add: ec_mode_list_def)

lemma ec_decode_mode_int:
  "0 \<le> code \<Longrightarrow>
   ec_decode EC_mode (PInt code) =
     Inr (PStr (if code < int (length ec_mode_list) then ec_mode_list ! nat code else ''Cloud''))"
  by (simp add: ec_decode_def py_getitem_def)

lemma ec_mode_list_reserved: "ec_mode_list ! 94 = ''unknown''" "ec_mode_list ! 2 = ''cook_rice''"
  "ec_mode_list ! 199 = ''diy''"
  by (simp_all add: ec_mode_list_def nth_append)

text \<open>
  C5. For the program catalog of the EC device, a raw mode code (raw codes are not negative)
  below the length of the catalog decodes to the catalog entry at that index, which may be
  the placeholder "unknown" (index 94 is one); a code at or beyond the length decodes to
  "Cloud". "Cloud" is no entry of the catalog, so it differs from "unknown", and it is a
  string, not \<^verbatim>\<open>None\<close>. The lookup itself never raises for such a code, and a pass that
  returns has stored and reported the decoded value.
\<close>

theorem ec_mode_catalog_lookup:
  assumes "0 \<le> code"
  shows "ec_decode EC_mode (PInt code) =
           Inr (PStr (if code < int (length ec_mode_list) then ec_mode_list ! nat code
                      else ''Cloud'')) \<and>
         (msg_fields message ''mode'' = Some (PInt code) \<longrightarrow>
          ec_process_message dev message = Inr (dev', rep) \<longrightarrow>
            attributes dev' EC_mode =
              PStr (if code < int (length ec_mode_list) then ec_mode_list ! nat code
                    else ''Cloud'') \<and>
            rep ''mode'' = Some (attributes dev' EC_mode)) \<and>
         length ec_mode_list = 200 \<and>
         ec_mode_list ! 94 = ''unknown'' \<and>
         ''Cloud'' \<notin> set ec_mode_list \<and>
         ''Cloud'' \<noteq> ''unknown'' \<and>
         PStr ''Cloud'' \<noteq> PNone"
proof -
  have d: "ec_decode EC_mode (PInt code) =
           Inr (PStr (if code < int (length ec_mode_list) then ec_mode_list ! nat code
                      else ''Cloud''))"
    using assms by (rule ec_decode_mode_int)
  have p: "attributes dev' EC_mode =
              PStr (if code < int (length ec_mode_list) then ec_mode_list ! nat code
                    else ''Cloud'') \<and>
            rep ''mode'' = Some (attributes dev' EC_mode)"
    if f: "msg_fields message ''mode'' = Some (PInt code)"
      and r: "ec_process_message dev message = Inr (dev', rep)"
  proof -
    have f': "msg_fields message (ec_name EC_mode) = Some (PInt code)" using f by simp
    from ec_process_message_frame(2) [OF r f'] d show ?thesis by simp
  qed
  have "''Cloud'' \<noteq> ''unknown''" by simp
  moreover have "PStr ''Cloud'' \<noteq> PNone" by simp
  ultimately show ?thesis
    using d p ec_mode_list_length ec_mode_list_reserved(1) ec_mode_list_cloud by blast
qed

theorem ec_mode_catalog_lookup_witness:
  "(0 :: int) \<le> 250 \<and>
   msg_fields \<lparr>protocol_version = 0, msg_fields = [''mode'' \<mapsto> PInt 250]\<rparr> ''mode'' = Some (PInt 250) \<and>
   ec_process_message (ec_new 0) \<lparr>protocol_version = 0, msg_fields = [''mode'' \<mapsto> PInt 250]\<rparr>
     = Inr (\<lparr>attributes = ec_default_attributes(EC_mode := PStr ''Cloud''), message_protocol_version = 0\<rparr>,
            [''mode'' \<mapsto> PStr ''Cloud'']) \<and>
   ec_decode EC_mode (PInt 250) = Inr (PStr (if 250 < int (length ec_mode_list) then ec_mode_list ! nat 250 else ''Cloud'')) \<and>
   attributes \<lparr>attributes = ec_default_attributes(EC_mode := PStr ''Cloud''), message_protocol_version = 0\<rparr> EC_mode
     = PStr (if 250 < int (length ec_mode_list) then ec_mode_list ! nat 250 else ''Cloud'') \<and>
   [''mode'' \<mapsto> PStr ''Cloud''] ''mode''
     = Some (attributes \<lparr>attributes = ec_default_attributes(EC_mode := PStr ''Cloud''), message_protocol_version = 0\<rparr> EC_mode) \<and>
   ''Cloud'' \<notin> set ec_mode_list"
proof -
  have h: "(0 :: int) \<le> 250" by simp
  have f: "msg_fields \<lparr>protocol_version = 0, msg_fields = [''mode'' \<mapsto> PInt 250]\<rparr> ''mode'' = Some (PInt 250)"
    by simp
  have p: "ec_process_message (ec_new 0) \<lparr>protocol_version = 0, msg_fields = [''mode'' \<mapsto> PInt 250]\<rparr>
     = Inr (\<lparr>attributes = ec_default_attributes(EC_mode := PStr ''Cloud''), message_protocol_version = 0\<rparr>,
            [''mode'' \<mapsto> PStr ''Cloud''])"
    by (simp add: ec_process_message_def ec_attribute_order_def ec_update_def ec_decode_def
          ec_mode_list_length ec_new_def Let_def)
  note t = ec_mode_catalog_lookup [OF h, of "\<lparr>protocol_version = 0, msg_fields = [''mode'' \<mapsto> PInt 250]\<rparr>" "ec_new 0"
      "\<lparr>attributes = ec_default_attributes(EC_mode := PStr ''Cloud''), message_protocol_version = 0\<rparr>"
      "[''mode'' \<mapsto> PStr ''Cloud'']"]
  note cA = t [THEN conjunct1]
  note cB = t [THEN conjunct2, THEN conjunct1, THEN mp, THEN mp, OF f p]
  note cC = t [THEN conjunct2, THEN conjunct2, THEN conjunct2, THEN conjunct2, THEN conjunct1]
  show ?thesis
    by (rule conjI [OF h conjI [OF f conjI [OF p conjI [OF cA conjI [OF cB [THEN conjunct1]
          conjI [OF cB [THEN conjunct2] cC]]]]]])
qed

subsection \<open>The report of a decode pass\<close>



subsection \<open>The protocol version\<close>

lemma a1_threads_protocol_version:
  assumes "a1_process_message dev message = Inr (dev', rep)"
  shows "a1_build_query dev' = [MessageQuery (protocol_version message)]"
    and "a1_make_message_set dev' = Inr m \<Longrightarrow> set_protocol_version m = protocol_version message"
proof -
  note v = a1_process_message_frame(7) [OF assms]
  show "a1_build_query dev' = [MessageQuery (protocol_version message)]"
    by (simp add: a1_build_query_def v)
  show "set_protocol_version m = protocol_version message" if "a1_make_message_set dev' = Inr m"
    using that v by (auto simp: a1_make_message_set_def Let_def split: sum.splits if_splits)
qed

lemma b1_keeps_protocol_version:
  assumes "b1_process_message dev message = Inr (dev', rep)"
  shows "b1_build_query dev' = b1_build_query dev"
  using b1_process_message_frame(4) [OF assms] by (simp add: b1_build_query_def)

lemma ec_keeps_protocol_version:
  assumes "ec_process_message dev message = Inr (dev', rep)"
  shows "ec_build_query dev' = ec_build_query dev"
  using ec_process_message_frame(4) [OF assms] by (simp add: ec_build_query_def)

text \<open>
  C9. Only the A1 device stores the protocol version of a decoded message
  (\<open>a1_threads_protocol_version\<close>). \<^verbatim>\<open>process_message\<close> of the B1 and of the EC device leaves
  \<^verbatim>\<open>_message_protocol_version\<close> as it was (\<open>b1_keeps_protocol_version\<close>,
  \<open>ec_keeps_protocol_version\<close>): after a message with version 3, a device that held
  version 1 still builds its query with version 1.
\<close>

theorem b1_ec_query_ignores_decoded_version:
  "b1_process_message (b1_new 1) \<lparr>protocol_version = 3, msg_fields = [''status'' \<mapsto> PInt 3]\<rparr>
     = Inr (\<lparr>attributes = b1_default_attributes(B1_status := PStr ''Working''),
              message_protocol_version = 1\<rparr>, [''status'' \<mapsto> PStr ''Working'']) \<and>
   b1_build_query \<lparr>attributes = b1_default_attributes(B1_status := PStr ''Working''),
                   message_protocol_version = 1\<rparr> = [MessageQuery 1] \<and>
   ec_process_message (ec_new 1) \<lparr>protocol_version = 3, msg_fields = [''progress'' \<mapsto> PInt 1]\<rparr>
     = Inr (\<lparr>attributes = ec_default_attributes(EC_progress := PStr ''Cooking''),
              message_protocol_version = 1\<rparr>, [''progress'' \<mapsto> PStr ''Cooking'']) \<and>
   ec_build_query \<lparr>attributes = ec_default_attributes(EC_progress := PStr ''Cooking''),
                   message_protocol_version = 1\<rparr> = [MessageQuery 1] \<and>
   MessageQuery 1 \<noteq> MessageQuery 3"
proof (intro conjI)
  show "b1_process_message (b1_new 1)
          \<lparr>protocol_version = 3, msg_fields = [''status'' \<mapsto> PInt 3]\<rparr>
     = Inr (\<lparr>attributes = b1_default_attributes(B1_status := PStr ''Working''),
              message_protocol_version = 1\<rparr>, [''status'' \<mapsto> PStr ''Working''])"
    by (simp add: b1_process_message_def b1_attribute_order_def b1_update_def b1_decode_def
          b1_status_def dict_contains_def py_eq.simps b1_new_def Let_def)
  show "ec_process_message (ec_new 1)
          \<lparr>protocol_version = 3, msg_fields = [''progress'' \<mapsto> PInt 1]\<rparr>
     = Inr (\<lparr>attributes = ec_default_attributes(EC_progress := PStr ''Cooking''),
              message_protocol_version = 1\<rparr>, [''progress'' \<mapsto> PStr ''Cooking''])"
    by (simp add: ec_process_message_def ec_attribute_order_def ec_update_def ec_decode_def
          ec_progress_def py_getitem_def ec_new_def Let_def)
qed (simp_all add: b1_build_query_def ec_build_query_def)

subsection \<open>Encoding a command\<close>

lemma py_in_iff: "py_in v xs \<longleftrightarrow> (\<exists>x \<in> set xs. v = PStr x)"
  by (simp add: py_in_def)

lemma py_index_member:
  "x \<in> set xs \<Longrightarrow> \<exists>k. py_index xs (PStr x) = Inr k \<and> k < length xs \<and> xs ! k = x"
proof (induction xs)
  case Nil
  then show ?case by simp
next
  case (Cons y ys)
  show ?case
  proof (cases "x = y")
    case True
    then show ?thesis by simp
  next
    case False
    with Cons.prems have "x \<in> set ys" by simp
    from Cons.IH [OF this] obtain k where "py_index ys (PStr x) = Inr k" "k < length ys" "ys ! k = x"
      by blast
    with False show ?thesis by simp
  qed
qed


lemma a1_speed_code_label:
  assumes "l \<in> set a1_fan_speeds"
  shows "\<exists>c. a1_speed_code (PStr l) = Inr c \<and> (c, l) \<in> set a1_speeds"
proof -
  from assms have "l \<in> set (dict_values a1_speeds)" by (simp add: a1_fan_speeds_def)
  from py_index_member [OF this] obtain k where
    k: "py_index (dict_values a1_speeds) (PStr l) = Inr k" "k < length (dict_values a1_speeds)"
       "dict_values a1_speeds ! k = l"
    by blast
  then have len: "k < length a1_speeds" by (simp add: dict_values_def)
  then have "py_getitem (dict_keys a1_speeds) (int k) = Inr (fst (a1_speeds ! k))"
    by (simp add: py_getitem_def dict_keys_def)
  moreover have "snd (a1_speeds ! k) = l" using k(3) len by (simp add: dict_values_def)
  then have "(fst (a1_speeds ! k), l) \<in> set a1_speeds"
    using len by (metis nth_mem prod.collapse)
  ultimately show ?thesis using k(1) by (simp add: a1_speed_code_def)
qed


lemma a1_water_level_parse:
  "int_of_str ''25'' = Inr 25" "int_of_str ''50'' = Inr 50" "int_of_str ''75'' = Inr 75"
  "int_of_str ''100'' = Inr 100"
  by code_simp+

lemma a1_water_level_show:
  "py_str (PInt 25) = ''25''" "py_str (PInt 50) = ''50''" "py_str (PInt 75) = ''75''"
  "py_str (PInt 100) = ''100''"
  by code_simp+

lemma a1_water_level_sets_int:
  assumes "l \<in> set a1_water_level_sets"
  shows "\<exists>n. py_int (PStr l) = Inr n \<and> py_str (PInt n) = l"
proof -
  from assms have "l = ''25'' \<or> l = ''50'' \<or> l = ''75'' \<or> l = ''100''"
    by (simp add: a1_water_level_sets_def)
  then show ?thesis
    using a1_water_level_parse a1_water_level_show by (elim disjE) (simp_all del: py_str.simps)
qed

text \<open>What \<^verbatim>\<open>make_message_set\<close> returns, field by field.\<close>

lemma a1_make_message_set_elim:
  assumes "a1_make_message_set dev = Inr m"
  obtains mode_code fan_code water_level where
    "(if py_in (attributes dev A1_mode) a1_modes
      then (case py_index a1_modes (attributes dev A1_mode) of
              Inl e \<Rightarrow> Inl e | Inr k \<Rightarrow> Inr (int k + 1))
      else Inr 1) = Inr mode_code"
    "(if attributes dev A1_fan_speed = PNone then Inr 40
      else a1_speed_code (attributes dev A1_fan_speed)) = Inr fan_code"
    "py_int (attributes dev A1_water_level_set) = Inr water_level"
    "set_protocol_version m = message_protocol_version dev"
    "set_fields m =
       [''power'' \<mapsto> attributes dev A1_power,
        ''prompt_tone'' \<mapsto> attributes dev A1_prompt_tone,
        ''child_lock'' \<mapsto> attributes dev A1_child_lock,
        ''mode'' \<mapsto> PInt mode_code,
        ''fan_speed'' \<mapsto> PInt fan_code,
        ''target_humidity'' \<mapsto> attributes dev A1_target_humidity,
        ''swing'' \<mapsto> attributes dev A1_swing,
        ''anion'' \<mapsto> attributes dev A1_anion,
        ''water_level_set'' \<mapsto> PInt water_level]"
proof -
  from assms obtain mode_code where
    1: "(if py_in (attributes dev A1_mode) a1_modes
      then (case py_index a1_modes (attributes dev A1_mode) of
              Inl e \<Rightarrow> Inl e | Inr k \<Rightarrow> Inr (int k + 1))
      else Inr 1) = Inr mode_code"
    unfolding a1_make_message_set_def Let_def by (cases "(if py_in (attributes dev A1_mode) a1_modes
      then (case py_index a1_modes (attributes dev A1_mode) of
              Inl e \<Rightarrow> Inl e | Inr k \<Rightarrow> Inr (int k + 1))
      else (Inr 1 :: error + int))") simp_all
  from assms 1 obtain fan_code where
    2: "(if attributes dev A1_fan_speed = PNone then Inr 40
      else a1_speed_code (attributes dev A1_fan_speed)) = Inr fan_code"
    unfolding a1_make_message_set_def Let_def
    by (cases "(if attributes dev A1_fan_speed = PNone then (Inr 40 :: error + int)
      else a1_speed_code (attributes dev A1_fan_speed))") simp_all
  from assms 1 2 obtain water_level where
    3: "py_int (attributes dev A1_water_level_set) = Inr water_level"
    unfolding a1_make_message_set_def Let_def
    by (cases "py_int (attributes dev A1_water_level_set)") simp_all
  from assms have "m = \<lparr>set_protocol_version = message_protocol_version dev,
       set_fields =
       [''power'' \<mapsto> attributes dev A1_power,
        ''prompt_tone'' \<mapsto> attributes dev A1_prompt_tone,
        ''child_lock'' \<mapsto> attributes dev A1_child_lock,
        ''mode'' \<mapsto> PInt mode_code,
        ''fan_speed'' \<mapsto> PInt fan_code,
        ''target_humidity'' \<mapsto> attributes dev A1_target_humidity,
        ''swing'' \<mapsto> attributes dev A1_swing,
        ''anion'' \<mapsto> attributes dev A1_anion,
        ''water_level_set'' \<mapsto> PInt water_level]\<rparr>"
    unfolding a1_make_message_set_def Let_def 1 2 3 by simp
  then have "set_protocol_version m = message_protocol_version dev" and
    "set_fields m =
       [''power'' \<mapsto> attributes dev A1_power,
        ''prompt_tone'' \<mapsto> attributes dev A1_prompt_tone,
        ''child_lock'' \<mapsto> attributes dev A1_child_lock,
        ''mode'' \<mapsto> PInt mode_code,
        ''fan_speed'' \<mapsto> PInt fan_code,
        ''target_humidity'' \<mapsto> attributes dev A1_target_humidity,
        ''swing'' \<mapsto> attributes dev A1_swing,
        ''anion'' \<mapsto> attributes dev A1_anion,
        ''water_level_set'' \<mapsto> PInt water_level]"
    by simp_all
  with 1 2 3 show thesis by (rule that)
qed


subsection \<open>What \<^verbatim>\<open>set_attribute\<close> sends\<close>

lemma a1_set_attribute_invalid:
  assumes "a1_make_message_set dev = Inr m0"
    and "(attr = ''mode'' \<and> \<not> py_in v a1_modes) \<or>
         (attr = ''fan_speed'' \<and> \<not> py_in v a1_fan_speeds) \<or>
         (attr = ''water_level_set'' \<and> \<not> py_in v a1_water_level_sets)"
  shows "a1_set_attribute dev attr v = Inr (dev, [BuildSend m0])"
  using assms(2)
proof (elim disjE conjE)
  assume "attr = ''mode''" and "\<not> py_in v a1_modes"
  then show ?thesis by (simp add: a1_set_attribute_def assms(1))
next
  assume "attr = ''fan_speed''" and "\<not> py_in v a1_fan_speeds"
  then show ?thesis by (simp add: a1_set_attribute_def assms(1) a1_fan_speeds_def)
next
  assume "attr = ''water_level_set''" and "\<not> py_in v a1_water_level_sets"
  then show ?thesis by (simp add: a1_set_attribute_def assms(1))
qed


subsection \<open>\<^verbatim>\<open>int(str(n))\<close>, passes that return, reachable states\<close>

lemma digit_of_digit_char: "d < 10 \<Longrightarrow> digit_of (digit_char d) = Some d"
proof -
  assume "d < 10"
  then have "d = 0 \<or> d = 1 \<or> d = 2 \<or> d = 3 \<or> d = 4 \<or> d = 5 \<or> d = 6 \<or> d = 7 \<or> d = 8 \<or> d = 9"
    by arith
  then show ?thesis
    by (elim disjE) (simp_all add: digit_char_def digit_of_def)
qed

lemma digit_of_not_space: "digit_of c \<noteq> None \<Longrightarrow> \<not> is_space c"
  by (auto simp: is_space_def digit_of_def)

lemma digit_of_not_sign: "digit_of c \<noteq> None \<Longrightarrow> c \<noteq> CHR ''-'' \<and> c \<noteq> CHR ''+''"
  by (auto simp: digit_of_def)

lemma digits_acc_digits:
  "\<forall>c \<in> set cs. digit_of c \<noteq> None \<Longrightarrow>
     digits_acc acc cs = Some (foldl (\<lambda>a c. 10 * a + the (digit_of c)) acc cs)"
proof (induction acc cs rule: digits_acc.induct)
  case (1 acc)
  then show ?case by simp
next
  case (2 acc c)
  then show ?case by auto
next
  case (3 acc c c' cs)
  from "3.prems" obtain d where d: "digit_of c = Some d" by auto
  from "3.prems" have "\<forall>x \<in> set (c' # cs). digit_of x \<noteq> None" by simp
  from "3.IH"(2) [OF d this] d show ?case by simp
qed

lemma str_nat_digits: "\<forall>c \<in> set (str_nat n). digit_of c \<noteq> None"
proof (induction n rule: str_nat.induct)
  case (1 n)
  show ?case
  proof (cases "n < 10")
    case True
    then show ?thesis by (simp add: str_nat.simps [of n] digit_of_digit_char)
  next
    case False
    with 1 have "\<forall>c \<in> set (str_nat (n div 10)). digit_of c \<noteq> None" by simp
    moreover have "digit_of (digit_char (n mod 10)) \<noteq> None"
      by (simp add: digit_of_digit_char)
    ultimately show ?thesis using False by (simp add: str_nat.simps [of n])
  qed
qed

lemma str_nat_not_empty: "str_nat n \<noteq> []"
  by (simp add: str_nat.simps [of n])

lemma str_nat_value: "foldl (\<lambda>a c. 10 * a + the (digit_of c)) 0 (str_nat n) = n"
proof (induction n rule: str_nat.induct)
  case (1 n)
  show ?case
  proof (cases "n < 10")
    case True
    then show ?thesis by (simp add: str_nat.simps [of n] digit_of_digit_char)
  next
    case False
    with 1 have "foldl (\<lambda>a c. 10 * a + the (digit_of c)) 0 (str_nat (n div 10)) = n div 10"
      by simp
    then show ?thesis using False
      by (simp add: str_nat.simps [of n] digit_of_digit_char)
  qed
qed

lemma py_digits_str_nat: "py_digits (str_nat n) = Some n"
proof -
  obtain c cs where s: "str_nat n = c # cs"
    using str_nat_not_empty [of n] by (cases "str_nat n") auto
  from str_nat_digits [of n] s obtain d where d: "digit_of c = Some d"
    and cs: "\<forall>x \<in> set cs. digit_of x \<noteq> None" by auto
  have "digits_acc d cs = Some (foldl (\<lambda>a c. 10 * a + the (digit_of c)) d cs)"
    using cs by (rule digits_acc_digits)
  also have "foldl (\<lambda>a c. 10 * a + the (digit_of c)) d cs
               = foldl (\<lambda>a c. 10 * a + the (digit_of c)) 0 (str_nat n)"
    by (simp add: s d)
  also have "\<dots> = n" by (rule str_nat_value)
  finally show ?thesis by (simp add: py_digits_def s d)
qed

lemma dropWhile_none: "xs = [] \<or> \<not> P (hd xs) \<Longrightarrow> dropWhile P xs = xs"
  by (cases xs) auto

lemma strip_no_space:
  assumes "s \<noteq> []" and "\<not> is_space (hd s)" and "\<not> is_space (last s)"
  shows "strip s = s"
proof -
  have "dropWhile is_space s = s" using assms(2) by (simp add: dropWhile_none)
  moreover have "dropWhile is_space (rev s) = rev s"
    using assms(1,3) by (simp add: dropWhile_none hd_rev)
  ultimately show ?thesis by (simp add: strip_def)
qed

lemma int_of_str_str_nat: "int_of_str (str_nat n) = Inr (int n)"
proof -
  obtain c cs where s: "str_nat n = c # cs"
    using str_nat_not_empty [of n] by (cases "str_nat n") auto
  have dig: "\<forall>x \<in> set (str_nat n). digit_of x \<noteq> None" by (rule str_nat_digits)
  have "digit_of (hd (str_nat n)) \<noteq> None" and "digit_of (last (str_nat n)) \<noteq> None"
    using dig str_nat_not_empty [of n] by (simp_all add: s)
  then have "strip (str_nat n) = str_nat n"
    using str_nat_not_empty [of n] by (intro strip_no_space) (simp_all add: digit_of_not_space)
  moreover have "c \<noteq> CHR ''-''" and "c \<noteq> CHR ''+''"
    using dig s digit_of_not_sign [of c] by simp_all
  ultimately show ?thesis
    using py_digits_str_nat [of n] by (simp add: int_of_str_def s)
qed

lemma int_of_str_minus_str_nat: "int_of_str (CHR ''-'' # str_nat n) = Inr (- int n)"
proof -
  have dig: "\<forall>x \<in> set (str_nat n). digit_of x \<noteq> None" by (rule str_nat_digits)
  have "digit_of (last (str_nat n)) \<noteq> None"
    using dig str_nat_not_empty [of n] by simp
  then have "\<not> is_space (last (CHR ''-'' # str_nat n))"
    using str_nat_not_empty [of n] by (simp add: digit_of_not_space)
  moreover have "\<not> is_space (hd (CHR ''-'' # str_nat n))" by (simp add: is_space_def)
  ultimately have "strip (CHR ''-'' # str_nat n) = CHR ''-'' # str_nat n"
    by (intro strip_no_space) simp_all
  then show ?thesis
    using py_digits_str_nat [of n] by (simp add: int_of_str_def)
qed

text \<open>\<^verbatim>\<open>int(str(n)) == n\<close> for every integer.\<close>

lemma py_int_py_str: "py_int (PStr (py_str (PInt n))) = Inr n"
proof (cases "n < 0")
  case True
  then show ?thesis by (simp add: int_of_str_minus_str_nat)
next
  case False
  then show ?thesis by (simp add: int_of_str_str_nat)
qed

lemma fep_returns_invariant:
  assumes "I sr"
    and "\<And>s v x. s \<in> set as \<Longrightarrow> msg_fields message (name s) = Some v \<Longrightarrow> I x \<Longrightarrow>
            \<exists>y. body s v x = Inr y \<and> I y"
  shows "\<exists>sr'. for_each_present name body as message sr = Inr sr' \<and> I sr'"
  using assms
proof (induction as arbitrary: sr)
  case Nil
  then show ?case by simp
next
  case (Cons s rest)
  have rest: "\<exists>sr'. for_each_present name body rest message z = Inr sr' \<and> I sr'" if "I z" for z
  proof (rule Cons.IH [OF that])
    fix s' v x
    assume "s' \<in> set rest" and "msg_fields message (name s') = Some v" and "I x"
    then show "\<exists>y. body s' v x = Inr y \<and> I y" using Cons.prems(2) [of s' v x] by simp
  qed
  show ?case
  proof (cases "msg_fields message (name s)")
    case None
    with rest [OF Cons.prems(1)] show ?thesis by simp
  next
    case (Some v)
    have "\<exists>y. body s v sr = Inr y \<and> I y" using Cons.prems(2) [of s v sr] Some Cons.prems(1) by simp
    then obtain y where y: "body s v sr = Inr y" "I y" by blast
    from rest [OF y(2)] y(1) Some show ?thesis by simp
  qed
qed

lemma tank_full_calculated_returns:
  "py_num tank \<noteq> None \<or> \<not> py_bool tank \<Longrightarrow> \<exists>calc. tank_full_calculated tank wl = Inr calc"
  by (auto simp: tank_full_calculated_def py_ge_def)

lemma a1_decode_typed:
  assumes "a1_name s \<in> {''mode'', ''tank'', ''water_level_set''} \<longrightarrow> is_uint v"
  shows "\<exists>d. a1_decode s v = Inr d \<and>
             (s = A1_water_level_set \<longrightarrow> (\<exists>n. py_int d = Inr n)) \<and>
             (s = A1_tank \<longrightarrow> py_num d \<noteq> None)"
proof (cases "s = A1_mode \<or> s = A1_water_level_set \<or> s = A1_tank")
  case True
  with assms have "is_uint v" by auto
  then obtain i where i: "v = PInt i" "0 \<le> i" by (cases v) auto
  from True show ?thesis
  proof (elim disjE)
    assume "s = A1_mode"
    then show ?thesis using i by (simp add: a1_decode_mode_int)
  next
    assume "s = A1_water_level_set"
    then show ?thesis using i py_int_py_str [of i]
      by (simp add: a1_decode_def del: py_str.simps py_int.simps)
  next
    assume "s = A1_tank"
    then show ?thesis using i by (simp add: a1_decode_def)
  qed
next
  case False
  then show ?thesis by (simp add: a1_decode_def dict_contains_def)
qed

lemma a1_update_returns:
  assumes "a1_decodable (fst x)"
    and "a1_name s \<in> {''mode'', ''tank'', ''water_level_set''} \<longrightarrow> is_uint v"
  shows "\<exists>y. a1_update s v x = Inr y \<and> a1_decodable (fst y)"
proof -
  from a1_decode_typed [OF assms(2)] obtain d where d: "a1_decode s v = Inr d"
    and dw: "s = A1_water_level_set \<longrightarrow> (\<exists>n. py_int d = Inr n)"
    and dt: "s = A1_tank \<longrightarrow> py_num d \<noteq> None" by blast
  let ?attrs1 = "(fst x)(s := d)"
  have w: "\<exists>n. py_int (?attrs1 A1_water_level_set) = Inr n"
    using assms(1) dw by (auto simp: a1_decodable_def split: sum.splits)
  have t: "py_num (?attrs1 A1_tank) \<noteq> None \<or> \<not> py_bool (?attrs1 A1_tank)"
    using assms(1) dt by (auto simp: a1_decodable_def)
  from w obtain n where n: "py_int (?attrs1 A1_water_level_set) = Inr n" ..
  from tank_full_calculated_returns [OF t, of n] obtain calc where
    c: "tank_full_calculated (?attrs1 A1_tank) n = Inr calc" ..
  have dec1: "a1_decodable ?attrs1" using n t by (simp add: a1_decodable_def)
  have dec2: "a1_decodable (?attrs1(A1_tank_full := PBool calc))"
    using n t by (simp add: a1_decodable_def)
  show ?thesis
  proof (cases "?attrs1 A1_tank_full = PNone \<or> \<not> py_eq (?attrs1 A1_tank_full) (PBool calc)")
    case True
    with d n c have "a1_update s v x = Inr (?attrs1(A1_tank_full := PBool calc),
        (snd x)(''tank_full'' \<mapsto> PBool calc,
                a1_name s \<mapsto> (?attrs1(A1_tank_full := PBool calc)) s))"
      unfolding a1_update_def Let_def by (simp only: sum.case if_True)
    with dec2 show ?thesis by simp
  next
    case False
    with d n c have "a1_update s v x = Inr (?attrs1, (snd x)(a1_name s \<mapsto> ?attrs1 s))"
      unfolding a1_update_def Let_def by (simp only: sum.case if_False)
    with dec1 show ?thesis by simp
  qed
qed

text \<open>On messages of the codec's types \<^verbatim>\<open>process_message\<close> of the A1 device never raises.\<close>

lemma a1_process_message_returns:
  assumes "a1_decodable (attributes dev)" and "a1_typed message"
  shows "\<exists>dev' rep. a1_process_message dev message = Inr (dev', rep) \<and>
                     a1_decodable (attributes dev')"
proof -
  have "\<exists>sr'. for_each_present a1_name a1_update a1_attribute_order message
                 (attributes dev, Map.empty) = Inr sr' \<and> a1_decodable (fst sr')"
  proof (rule fep_returns_invariant [where I = "\<lambda>z. a1_decodable (fst z)"])
    show "a1_decodable (fst (attributes dev, Map.empty :: report))" using assms(1) by simp
  next
    fix s v and x :: "(a1_attr \<Rightarrow> pyval) \<times> report"
    assume f: "msg_fields message (a1_name s) = Some v" and x: "a1_decodable (fst x)"
    have "a1_name s \<in> {''mode'', ''tank'', ''water_level_set''} \<longrightarrow> is_uint v"
      using assms(2) f unfolding a1_typed_def by (auto split: option.splits)
    from a1_update_returns [OF x this]
    show "\<exists>y. a1_update s v x = Inr y \<and> a1_decodable (fst y)" .
  qed
  then obtain attrs rep where
    "for_each_present a1_name a1_update a1_attribute_order message (attributes dev, Map.empty)
       = Inr (attrs, rep)" and "a1_decodable attrs" by auto
  then show ?thesis by (simp add: a1_process_message_def)
qed

lemma a1_new_decodable: "a1_decodable (attributes (a1_new version))"
  by (simp add: a1_decodable_def a1_new_def)







subsection \<open>The locally acknowledged attribute and invalid values\<close>



text \<open>
  C7. Setting \<^verbatim>\<open>mode\<close>, \<^verbatim>\<open>fan_speed\<close> or \<^verbatim>\<open>water_level_set\<close>
  to a value that is not in the attribute's table raises nothing of its own and overrides
  nothing: the one message sent is the message \<^verbatim>\<open>make_message_set\<close> builds from the
  state, every field included, and the state is unchanged.
\<close>

theorem a1_set_invalid_label_is_noop:
  assumes "a1_make_message_set dev = Inr m0"
    and "(attr = ''mode'' \<and> \<not> py_in v a1_modes) \<or>
         (attr = ''fan_speed'' \<and> \<not> py_in v a1_fan_speeds) \<or>
         (attr = ''water_level_set'' \<and> \<not> py_in v a1_water_level_sets)"
  shows "a1_set_attribute dev attr v = Inr (dev, [BuildSend m0])"
  using assms by (rule a1_set_attribute_invalid)

theorem a1_set_invalid_label_is_noop_witness:
  "a1_make_message_set (a1_new 0) = Inr (\<lparr>set_protocol_version = 0,
      set_fields = [''power'' \<mapsto> PBool False, ''prompt_tone'' \<mapsto> PBool True,
                    ''child_lock'' \<mapsto> PBool False, ''mode'' \<mapsto> PInt 1,
                    ''fan_speed'' \<mapsto> PInt 60, ''target_humidity'' \<mapsto> PInt 35,
                    ''swing'' \<mapsto> PBool False, ''anion'' \<mapsto> PBool False,
                    ''water_level_set'' \<mapsto> PInt 50]\<rparr>) \<and>
   (((''fan_speed'') = ''mode'' \<and> \<not> py_in (PStr ''Turbo'') a1_modes) \<or>
         ((''fan_speed'') = ''fan_speed'' \<and> \<not> py_in (PStr ''Turbo'') a1_fan_speeds) \<or>
         ((''fan_speed'') = ''water_level_set'' \<and> \<not> py_in (PStr ''Turbo'') a1_water_level_sets)) \<and>
   a1_set_attribute (a1_new 0) (''fan_speed'') (PStr ''Turbo'') = Inr ((a1_new 0), [BuildSend (\<lparr>set_protocol_version = 0,
      set_fields = [''power'' \<mapsto> PBool False, ''prompt_tone'' \<mapsto> PBool True,
                    ''child_lock'' \<mapsto> PBool False, ''mode'' \<mapsto> PInt 1,
                    ''fan_speed'' \<mapsto> PInt 60, ''target_humidity'' \<mapsto> PInt 35,
                    ''swing'' \<mapsto> PBool False, ''anion'' \<mapsto> PBool False,
                    ''water_level_set'' \<mapsto> PInt 50]\<rparr>)])"
proof -
  have h1: "a1_make_message_set (a1_new 0) = Inr (\<lparr>set_protocol_version = 0,
      set_fields = [''power'' \<mapsto> PBool False, ''prompt_tone'' \<mapsto> PBool True,
                    ''child_lock'' \<mapsto> PBool False, ''mode'' \<mapsto> PInt 1,
                    ''fan_speed'' \<mapsto> PInt 60, ''target_humidity'' \<mapsto> PInt 35,
                    ''swing'' \<mapsto> PBool False, ''anion'' \<mapsto> PBool False,
                    ''water_level_set'' \<mapsto> PInt 50]\<rparr>)"
    by (simp add: a1_make_message_set_def py_in_def a1_modes_def a1_speed_code_def dict_values_def
        dict_keys_def a1_speeds_def py_getitem_def a1_new_def Let_def)
  have h2: "((''fan_speed'') = ''mode'' \<and> \<not> py_in (PStr ''Turbo'') a1_modes) \<or>
         ((''fan_speed'') = ''fan_speed'' \<and> \<not> py_in (PStr ''Turbo'') a1_fan_speeds) \<or>
         ((''fan_speed'') = ''water_level_set'' \<and> \<not> py_in (PStr ''Turbo'') a1_water_level_sets)"
    by (simp add: py_in_def a1_fan_speeds_def dict_values_def a1_speeds_def)
  show ?thesis
    by (rule conjI [OF h1 conjI [OF h2 a1_set_invalid_label_is_noop [OF h1 h2]]])
qed

subsection \<open>Fallback codes of \<^verbatim>\<open>make_message_set\<close>\<close>




subsection \<open>Encoding and decoding a label\<close>

lemma a1_modes_length: "length a1_modes = 5"
  by (simp add: a1_modes_def)

lemma a1_decode_mode_position:
  assumes "k < length a1_modes"
  shows "a1_decode A1_mode (PInt (int k + 1)) = Inr (PStr (a1_modes ! k))"
proof -
  from assms have "int k + 1 \<le> 5" and "1 \<le> int k + 1" by (simp_all add: a1_modes_length)
  then show ?thesis by (simp add: a1_decode_mode_int)
qed

lemma a1_decode_fan_speed_code:
  assumes "(c, l) \<in> set a1_speeds"
  shows "a1_decode A1_fan_speed (PInt c) = Inr (PStr l)"
proof -
  from assms have "(c, l) = (1, ''Lowest'') \<or> (c, l) = (40, ''Low'') \<or> (c, l) = (60, ''Medium'') \<or>
      (c, l) = (80, ''High'') \<or> (c, l) = (102, ''Auto'') \<or> (c, l) = (127, ''Off'')"
    by (simp add: a1_speeds_def)
  then show ?thesis
    by (elim disjE) (simp_all add: a1_decode_def dict_contains_def a1_speeds_def py_eq_int)
qed

lemma a1_decode_water_level:
  "a1_decode A1_water_level_set (PInt n) = Inr (PStr (py_str (PInt n)))"
  by (simp add: a1_decode_def del: py_str.simps)

text \<open>The field either encode path writes for a label of the attribute's table decodes to
  the label.\<close>

lemma a1_encoded_field_decodes:
  assumes dom: "(a = A1_mode \<and> L \<in> set a1_modes) \<or>
                (a = A1_fan_speed \<and> L \<in> set a1_fan_speeds) \<or>
                (a = A1_water_level_set \<and> L \<in> set a1_water_level_sets)"
    and enc: "(attributes dev a = PStr L \<and> a1_make_message_set dev = Inr m) \<or>
              a1_set_attribute dev (a1_name a) (PStr L) = Inr (dev0, [BuildSend m])"
  shows "\<exists>raw. set_fields m (a1_name a) = Some raw \<and> a1_decode a raw = Inr (PStr L)"
proof -
  consider (make) "attributes dev a = PStr L" "a1_make_message_set dev = Inr m"
    | (set) "a1_set_attribute dev (a1_name a) (PStr L) = Inr (dev0, [BuildSend m])"
    using enc by blast
  then show ?thesis
  proof cases
    case make
    from make(2) obtain mode_code fan_code water_level where
      mc: "(if py_in (attributes dev A1_mode) a1_modes
        then (case py_index a1_modes (attributes dev A1_mode) of
                Inl e \<Rightarrow> Inl e | Inr k \<Rightarrow> Inr (int k + 1))
        else Inr 1) = Inr mode_code"
      and fc: "(if attributes dev A1_fan_speed = PNone then Inr 40
        else a1_speed_code (attributes dev A1_fan_speed)) = Inr fan_code"
      and wl: "py_int (attributes dev A1_water_level_set) = Inr water_level"
      and fs: "set_fields m =
         [''power'' \<mapsto> attributes dev A1_power,
          ''prompt_tone'' \<mapsto> attributes dev A1_prompt_tone,
          ''child_lock'' \<mapsto> attributes dev A1_child_lock,
          ''mode'' \<mapsto> PInt mode_code,
          ''fan_speed'' \<mapsto> PInt fan_code,
          ''target_humidity'' \<mapsto> attributes dev A1_target_humidity,
          ''swing'' \<mapsto> attributes dev A1_swing,
          ''anion'' \<mapsto> attributes dev A1_anion,
          ''water_level_set'' \<mapsto> PInt water_level]"
      by (rule a1_make_message_set_elim)
    from dom show ?thesis
    proof (elim disjE conjE)
      assume a: "a = A1_mode" and L: "L \<in> set a1_modes"
      from py_index_member [OF L] obtain k where
        k: "py_index a1_modes (PStr L) = Inr k" "k < length a1_modes" "a1_modes ! k = L" by blast
      have "py_in (PStr L) a1_modes" using L by (simp add: py_in_iff)
      with mc make(1) a k(1) have "mode_code = int k + 1" by simp
      then have "set_fields m ''mode'' = Some (PInt (int k + 1))" by (simp add: fs)
      with a1_decode_mode_position [OF k(2)] k(3) a show ?thesis by simp
    next
      assume a: "a = A1_fan_speed" and L: "L \<in> set a1_fan_speeds"
      from a1_speed_code_label [OF L] obtain c where
        c: "a1_speed_code (PStr L) = Inr c" "(c, L) \<in> set a1_speeds" by blast
      with fc make(1) a have "fan_code = c" by simp
      then have "set_fields m ''fan_speed'' = Some (PInt c)" by (simp add: fs)
      with a1_decode_fan_speed_code [OF c(2)] a show ?thesis by simp
    next
      assume a: "a = A1_water_level_set" and L: "L \<in> set a1_water_level_sets"
      from a1_water_level_sets_int [OF L] obtain n where
        n: "py_int (PStr L) = Inr n" "py_str (PInt n) = L" by blast
      with wl make(1) a have "water_level = n" by simp
      then have "set_fields m ''water_level_set'' = Some (PInt n)" by (simp add: fs)
      with a1_decode_water_level [of n] n(2) a show ?thesis by simp
    qed
  next
    case set
    have np: "a1_name a \<noteq> ''prompt_tone''" using dom by auto
    with set obtain m0 where m0: "a1_make_message_set dev = Inr m0"
      by (cases "a1_make_message_set dev") (simp_all add: a1_set_attribute_def)
    from dom show ?thesis
    proof (elim disjE conjE)
      assume a: "a = A1_mode" and L: "L \<in> set a1_modes"
      from py_index_member [OF L] obtain k where
        k: "py_index a1_modes (PStr L) = Inr k" "k < length a1_modes" "a1_modes ! k = L" by blast
      have "py_in (PStr L) a1_modes" using L by (simp add: py_in_iff)
      with set a k(1) m0 have "m = setattr m0 ''mode'' (PInt (int k + 1))"
        by (simp add: a1_set_attribute_def)
      then have "set_fields m ''mode'' = Some (PInt (int k + 1))" by (simp add: setattr_def)
      with a1_decode_mode_position [OF k(2)] k(3) a show ?thesis by simp
    next
      assume a: "a = A1_fan_speed" and L: "L \<in> set a1_fan_speeds"
      from a1_speed_code_label [OF L] obtain c where
        c: "a1_speed_code (PStr L) = Inr c" "(c, L) \<in> set a1_speeds" by blast
      have "py_in (PStr L) (dict_values a1_speeds)"
        using L by (simp add: py_in_iff a1_fan_speeds_def)
      with set a c(1) m0 have "m = setattr m0 ''fan_speed'' (PInt c)"
        by (simp add: a1_set_attribute_def)
      then have "set_fields m ''fan_speed'' = Some (PInt c)" by (simp add: setattr_def)
      with a1_decode_fan_speed_code [OF c(2)] a show ?thesis by simp
    next
      assume a: "a = A1_water_level_set" and L: "L \<in> set a1_water_level_sets"
      from a1_water_level_sets_int [OF L] obtain n where
        n: "py_int (PStr L) = Inr n" "py_str (PInt n) = L" by blast
      then have n': "int_of_str L = Inr n" by simp
      have "py_in (PStr L) a1_water_level_sets" using L by (simp add: py_in_iff)
      with set a n' m0 have "m = setattr m0 ''water_level_set'' (PInt n)"
        by (simp add: a1_set_attribute_def)
      then have "set_fields m ''water_level_set'' = Some (PInt n)" by (simp add: setattr_def)
      with a1_decode_water_level [of n] n(2) a show ?thesis by simp
    qed
  qed
qed

lemma b1_status_labels_decoded:
  "\<forall>l \<in> set (dict_values b1_status). \<exists>code. b1_decode B1_status (PInt code) = PStr l"
proof
  fix l assume "l \<in> set (dict_values b1_status)"
  then have "l = ''Standby'' \<or> l = ''Idle'' \<or> l = ''Working'' \<or> l = ''Finished'' \<or>
             l = ''Delay'' \<or> l = ''Paused''"
    by (simp add: dict_values_def b1_status_def)
  moreover have "b1_decode B1_status (PInt 1) = PStr ''Standby''"
    "b1_decode B1_status (PInt 2) = PStr ''Idle''"
    "b1_decode B1_status (PInt 3) = PStr ''Working''"
    "b1_decode B1_status (PInt 4) = PStr ''Finished''"
    "b1_decode B1_status (PInt 5) = PStr ''Delay''"
    "b1_decode B1_status (PInt 6) = PStr ''Paused''"
    by (simp_all add: b1_decode_def dict_contains_def b1_status_def py_eq_int)
  ultimately show "\<exists>code. b1_decode B1_status (PInt code) = PStr l" by blast
qed

lemma ec_decode_progress_int:
  "0 \<le> code \<Longrightarrow>
   ec_decode EC_progress (PInt code) =
     Inr (PStr (if code < int (length ec_progress) then ec_progress ! nat code else ''Unknown''))"
  by (simp add: ec_decode_def py_getitem_def)

lemma ec_progress_labels_decoded:
  "\<forall>l \<in> set ec_progress. \<exists>code. ec_decode EC_progress (PInt code) = Inr (PStr l)"
proof
  fix l assume "l \<in> set ec_progress"
  then obtain k where k: "k < length ec_progress" "ec_progress ! k = l"
    by (auto simp: in_set_conv_nth)
  then have "ec_decode EC_progress (PInt (int k)) = Inr (PStr l)"
    by (simp add: ec_decode_progress_int)
  then show "\<exists>code. ec_decode EC_progress (PInt code) = Inr (PStr l)" ..
qed

lemma ec_mode_labels_decoded:
  "\<forall>l \<in> set ec_mode_list. \<exists>code. ec_decode EC_mode (PInt code) = Inr (PStr l)"
proof
  fix l assume "l \<in> set ec_mode_list"
  then obtain k where k: "k < length ec_mode_list" "ec_mode_list ! k = l"
    by (auto simp: in_set_conv_nth)
  then have "ec_decode EC_mode (PInt (int k)) = Inr (PStr l)"
    by (simp add: ec_decode_mode_int)
  then show "\<exists>code. ec_decode EC_mode (PInt code) = Inr (PStr l)" ..
qed

lemma ec_decode_typed:
  assumes "ec_name s \<in> {''mode'', ''progress''} \<longrightarrow> is_uint v"
  shows "\<exists>d. ec_decode s v = Inr d"
proof (cases "s = EC_mode \<or> s = EC_progress")
  case True
  with assms have "is_uint v" by auto
  then obtain i where "v = PInt i" "0 \<le> i" by (cases v) auto
  with True show ?thesis by (auto simp: ec_decode_mode_int ec_decode_progress_int)
next
  case False
  then show ?thesis by (simp add: ec_decode_def)
qed

text \<open>On messages of the codec's types \<^verbatim>\<open>process_message\<close> of the EC device never raises.\<close>

lemma ec_process_message_returns:
  assumes "ec_typed message"
  shows "\<exists>dev' rep. ec_process_message dev message = Inr (dev', rep)"
proof -
  have "\<exists>sr'. for_each_present ec_name ec_update ec_attribute_order message
                 (attributes dev, Map.empty) = Inr sr'"
  proof (rule fep_returns)
    fix s v and x :: "ec_attr pass_state"
    assume f: "msg_fields message (ec_name s) = Some v"
    have "ec_name s \<in> {''mode'', ''progress''} \<longrightarrow> is_uint v"
      using assms f unfolding ec_typed_def by (auto split: option.splits)
    from ec_decode_typed [OF this] obtain d where "ec_decode s v = Inr d" ..
    then show "\<exists>y. ec_update s v x = Inr y" by (simp add: ec_update_def Let_def)
  qed
  then show ?thesis by (auto simp: ec_process_message_def)
qed

text \<open>
  C1. On the A1 device, a label of the mode, fan speed or water level table that either
  encode path (\<^verbatim>\<open>make_message_set\<close> from a state holding the label, or \<^verbatim>\<open>set_attribute\<close>
  with the label) writes into the outbound message comes back as that label when
  \<^verbatim>\<open>process_message\<close> decodes the same raw field: it is stored and reported. The B1 and EC
  devices encode nothing (their \<^verbatim>\<open>set_attribute\<close> is empty); of their tables it holds that
  every status, progress and program label is the decoding of some raw code.
\<close>

theorem label_round_trip:
  assumes "(a = A1_mode \<and> L \<in> set a1_modes) \<or>
           (a = A1_fan_speed \<and> L \<in> set a1_fan_speeds) \<or>
           (a = A1_water_level_set \<and> L \<in> set a1_water_level_sets)"
    and "(attributes dev a = PStr L \<and> a1_make_message_set dev = Inr m) \<or>
         a1_set_attribute dev (a1_name a) (PStr L) = Inr (dev0, [BuildSend m])"
    and "msg_fields message (a1_name a) = set_fields m (a1_name a)"
    and "a1_process_message dev2 message = Inr (dev2', rep)"
  shows "attributes dev2' a = PStr L \<and> rep (a1_name a) = Some (PStr L) \<and>
         (\<forall>l \<in> set (dict_values b1_status). \<exists>code. b1_decode B1_status (PInt code) = PStr l) \<and>
         (\<forall>l \<in> set ec_progress. \<exists>code. ec_decode EC_progress (PInt code) = Inr (PStr l)) \<and>
         (\<forall>l \<in> set ec_mode_list. \<exists>code. ec_decode EC_mode (PInt code) = Inr (PStr l))"
proof -
  from a1_encoded_field_decodes [OF assms(1,2)] obtain raw where
    raw: "set_fields m (a1_name a) = Some raw" "a1_decode a raw = Inr (PStr L)" by blast
  have f: "msg_fields message (a1_name a) = Some raw" using assms(3) raw(1) by simp
  have nd: "a \<noteq> A1_tank_full" using assms(1) by auto
  from a1_process_message_frame(3) [OF assms(4) f nd] raw(2)
  have 1: "attributes dev2' a = PStr L" by simp
  from a1_process_message_frame(2) [OF assms(4) f] 1
  have 2: "rep (a1_name a) = Some (PStr L)" by simp
  from 1 2 b1_status_labels_decoded ec_progress_labels_decoded ec_mode_labels_decoded
  show ?thesis by (intro conjI)
qed

theorem label_round_trip_witness:
  "(((A1_fan_speed) = A1_mode \<and> (''High'') \<in> set a1_modes) \<or>
           ((A1_fan_speed) = A1_fan_speed \<and> (''High'') \<in> set a1_fan_speeds) \<or>
           ((A1_fan_speed) = A1_water_level_set \<and> (''High'') \<in> set a1_water_level_sets)) \<and>
   ((attributes (a1_new 0) (A1_fan_speed) = PStr (''High'') \<and> a1_make_message_set (a1_new 0) = Inr (setattr \<lparr>set_protocol_version = 0,
      set_fields = [''power'' \<mapsto> PBool False, ''prompt_tone'' \<mapsto> PBool True,
                    ''child_lock'' \<mapsto> PBool False, ''mode'' \<mapsto> PInt 1,
                    ''fan_speed'' \<mapsto> PInt 60, ''target_humidity'' \<mapsto> PInt 35,
                    ''swing'' \<mapsto> PBool False, ''anion'' \<mapsto> PBool False,
                    ''water_level_set'' \<mapsto> PInt 50]\<rparr> ''fan_speed'' (PInt 80))) \<or>
         a1_set_attribute (a1_new 0) (a1_name (A1_fan_speed)) (PStr (''High'')) = Inr ((a1_new 0),
             [BuildSend (setattr \<lparr>set_protocol_version = 0,
      set_fields = [''power'' \<mapsto> PBool False, ''prompt_tone'' \<mapsto> PBool True,
                    ''child_lock'' \<mapsto> PBool False, ''mode'' \<mapsto> PInt 1,
                    ''fan_speed'' \<mapsto> PInt 60, ''target_humidity'' \<mapsto> PInt 35,
                    ''swing'' \<mapsto> PBool False, ''anion'' \<mapsto> PBool False,
                    ''water_level_set'' \<mapsto> PInt 50]\<rparr> ''fan_speed'' (PInt 80))])) \<and>
   msg_fields (\<lparr>protocol_version = 3, msg_fields = [''fan_speed'' \<mapsto> PInt
       80]\<rparr>) (a1_name (A1_fan_speed)) = set_fields (setattr \<lparr>set_protocol_version = 0,
      set_fields = [''power'' \<mapsto> PBool False, ''prompt_tone'' \<mapsto> PBool True,
                    ''child_lock'' \<mapsto> PBool False, ''mode'' \<mapsto> PInt 1,
                    ''fan_speed'' \<mapsto> PInt 60, ''target_humidity'' \<mapsto> PInt 35,
                    ''swing'' \<mapsto> PBool False, ''anion'' \<mapsto> PBool False,
                    ''water_level_set'' \<mapsto> PInt 50]\<rparr> ''fan_speed'' (PInt 80)) (a1_name (A1_fan_speed)) \<and>
   a1_process_message (a1_new 0) (\<lparr>protocol_version = 3, msg_fields = [''fan_speed''
       \<mapsto> PInt 80]\<rparr>) = Inr ((\<lparr>attributes = a1_default_attributes(A1_fan_speed
       := PStr ''High'', A1_tank_full := PBool False), message_protocol_version = 3\<rparr>),
       ([''tank_full'' \<mapsto> PBool False, ''fan_speed'' \<mapsto> PStr ''High''])) \<and>
   attributes \<lparr>attributes = a1_default_attributes(A1_fan_speed := PStr ''High'',
       A1_tank_full := PBool False), message_protocol_version = 3\<rparr> A1_fan_speed = PStr
       ''High'' \<and>
   [''tank_full'' \<mapsto> PBool False, ''fan_speed'' \<mapsto> PStr ''High''] (a1_name A1_fan_speed) = Some (PStr ''High'') \<and>
   ''Working'' \<in> set (dict_values b1_status) \<and>
   (\<exists>code. b1_decode B1_status (PInt code) = PStr ''Working'') \<and>
   ''Keep-pressure'' \<in> set ec_progress \<and>
   (\<exists>code. ec_decode EC_progress (PInt code) = Inr (PStr ''Keep-pressure''))"
proof -
  have h1: "((A1_fan_speed) = A1_mode \<and> (''High'') \<in> set a1_modes) \<or>
           ((A1_fan_speed) = A1_fan_speed \<and> (''High'') \<in> set a1_fan_speeds) \<or>
           ((A1_fan_speed) = A1_water_level_set \<and> (''High'') \<in> set a1_water_level_sets)"
    by (simp add: a1_fan_speeds_def dict_values_def a1_speeds_def)
  have h2: "(attributes (a1_new 0) (A1_fan_speed) = PStr (''High'') \<and> a1_make_message_set
      (a1_new 0) = Inr (setattr \<lparr>set_protocol_version = 0,
      set_fields = [''power'' \<mapsto> PBool False, ''prompt_tone'' \<mapsto> PBool True,
                    ''child_lock'' \<mapsto> PBool False, ''mode'' \<mapsto> PInt 1,
                    ''fan_speed'' \<mapsto> PInt 60, ''target_humidity'' \<mapsto> PInt 35,
                    ''swing'' \<mapsto> PBool False, ''anion'' \<mapsto> PBool False,
                    ''water_level_set'' \<mapsto> PInt 50]\<rparr> ''fan_speed'' (PInt 80))) \<or>
         a1_set_attribute (a1_new 0) (a1_name (A1_fan_speed)) (PStr (''High'')) = Inr ((a1_new 0),
             [BuildSend (setattr \<lparr>set_protocol_version = 0,
      set_fields = [''power'' \<mapsto> PBool False, ''prompt_tone'' \<mapsto> PBool True,
                    ''child_lock'' \<mapsto> PBool False, ''mode'' \<mapsto> PInt 1,
                    ''fan_speed'' \<mapsto> PInt 60, ''target_humidity'' \<mapsto> PInt 35,
                    ''swing'' \<mapsto> PBool False, ''anion'' \<mapsto> PBool False,
                    ''water_level_set'' \<mapsto> PInt 50]\<rparr> ''fan_speed'' (PInt 80))])"
    by (simp add: a1_set_attribute_def a1_make_message_set_def py_in_def a1_modes_def
        a1_speed_code_def dict_values_def dict_keys_def a1_speeds_def py_getitem_def a1_new_def
        Let_def)
  have h3: "msg_fields (\<lparr>protocol_version = 3, msg_fields = [''fan_speed'' \<mapsto> PInt
      80]\<rparr>) (a1_name (A1_fan_speed)) = set_fields (setattr \<lparr>set_protocol_version = 0,
      set_fields = [''power'' \<mapsto> PBool False, ''prompt_tone'' \<mapsto> PBool True,
                    ''child_lock'' \<mapsto> PBool False, ''mode'' \<mapsto> PInt 1,
                    ''fan_speed'' \<mapsto> PInt 60, ''target_humidity'' \<mapsto> PInt 35,
                    ''swing'' \<mapsto> PBool False, ''anion'' \<mapsto> PBool False,
                    ''water_level_set'' \<mapsto> PInt 50]\<rparr> ''fan_speed'' (PInt 80)) (a1_name (A1_fan_speed))"
    by (simp add: setattr_def)
  have h4: "a1_process_message (a1_new 0) (\<lparr>protocol_version = 3, msg_fields =
      [''fan_speed'' \<mapsto> PInt 80]\<rparr>) = Inr ((\<lparr>attributes =
      a1_default_attributes(A1_fan_speed := PStr ''High'', A1_tank_full := PBool False),
      message_protocol_version = 3\<rparr>), ([''tank_full'' \<mapsto> PBool False, ''fan_speed''
      \<mapsto> PStr ''High'']))"
    by (simp add: a1_eval a1_new_def)
  note t = label_round_trip [OF h1 h2 h3 h4]
  have m1: "''Working'' \<in> set (dict_values b1_status)"
    by (simp add: dict_values_def b1_status_def)
  have m2: "''Keep-pressure'' \<in> set ec_progress"
    by (simp add: ec_progress_def)
  from t have c1: "attributes \<lparr>attributes = a1_default_attributes(A1_fan_speed := PStr
      ''High'', A1_tank_full := PBool False), message_protocol_version = 3\<rparr> A1_fan_speed =
      PStr ''High''"
    by (rule conjunct1)
  have c2: "[''tank_full'' \<mapsto> PBool False, ''fan_speed'' \<mapsto> PStr ''High''] (a1_name A1_fan_speed) = Some (PStr ''High'')"
    by (rule t [THEN conjunct2, THEN conjunct1])
  have c3: "\<exists>code. b1_decode B1_status (PInt code) = PStr ''Working''"
    by (rule t [THEN conjunct2, THEN conjunct2, THEN conjunct1, THEN bspec, OF m1])
  have c4: "\<exists>code. ec_decode EC_progress (PInt code) = Inr (PStr ''Keep-pressure'')"
    by (rule t [THEN conjunct2, THEN conjunct2, THEN conjunct2, THEN conjunct1, THEN bspec,
          OF m2])
  from h1 h2 h3 h4 c1 c2 m1 c3 m2 c4 show ?thesis
    by (intro conjI)
qed

theorem b1_ec_set_attribute_encodes_nothing:
  "snd (b1_set_attribute (b1_new 0) ''status'' (PStr ''Standby'')) = [] \<and>
   snd (ec_set_attribute (ec_new 0) ''progress'' (PStr ''Cooking'')) = []"
  by (simp add: b1_set_attribute_def ec_set_attribute_def)

end
